theory Spec2Isabelle
  imports Complex_Main "HOL-Library.Word"
begin

unbundle bit_operations_syntax

section \<open>The hexagonal city-growth sketch (genuary8/sketch.js)\<close>

text \<open>
  The embedding follows \<^verbatim>\<open>src/genuary8/sketch.js\<close>. JavaScript numbers that hold
  coordinates, states and levels are integers and are modelled as \<open>int\<close>; numbers that
  hold probabilities, times and animation progress are modelled exactly as \<open>rat\<close>
  (the concrete evaluations below only use values on which IEEE doubles are exact).
  Objects that are shared by reference (the tiles of a grid, referenced by agents) live
  in the grid's \<open>tiles\<close> array and are referenced by their index in it.
\<close>

subsection \<open>Static tables\<close>

definition STATE_EMPTY :: int where "STATE_EMPTY = 0"
definition STATE_CANDIDATE :: int where "STATE_CANDIDATE = 1"
definition STATE_CRYSTALLIZED :: int where "STATE_CRYSTALLIZED = 2"

definition LEVEL_EMPTY :: int where "LEVEL_EMPTY = 0"
definition LEVEL_HOUSE :: int where "LEVEL_HOUSE = 1"
definition LEVEL_SHOP :: int where "LEVEL_SHOP = 2"
definition LEVEL_TOWER :: int where "LEVEL_TOWER = 3"
definition LEVEL_FACTORY :: int where "LEVEL_FACTORY = 4"

record rule =
  threshold :: int
  nxt :: int

text \<open>\<^verbatim>\<open>EVOLUTION[level]\<close>: \<open>None\<close> stands for both \<^verbatim>\<open>null\<close> (Factory) and
  \<^verbatim>\<open>undefined\<close> (any other key); the code only tests \<^verbatim>\<open>!config\<close>.\<close>

definition EVOLUTION :: "int \<Rightarrow> rule option" where
  "EVOLUTION l =
     (if l = LEVEL_HOUSE then Some \<lparr>threshold = 2, nxt = LEVEL_SHOP\<rparr>
      else if l = LEVEL_SHOP then Some \<lparr>threshold = 3, nxt = LEVEL_TOWER\<rparr>
      else if l = LEVEL_TOWER then Some \<lparr>threshold = 4, nxt = LEVEL_FACTORY\<rparr>
      else None)"

text \<open>\<^verbatim>\<open>SERVICE_RANGE[level]\<close>; a key outside the table is \<^verbatim>\<open>undefined\<close>, with which
  every comparison is false, so such a lookup is \<open>None\<close>.\<close>

definition SERVICE_RANGE :: "int \<Rightarrow> int option" where
  "SERVICE_RANGE l = (if 0 \<le> l \<and> l \<le> 4 then Some l else None)"

definition MAX_COMPETITORS :: "int \<Rightarrow> int option" where
  "MAX_COMPETITORS l =
     (if l = LEVEL_HOUSE then Some 4
      else if l = LEVEL_SHOP then Some 2
      else if l = LEVEL_TOWER then Some 1
      else if l = LEVEL_FACTORY then Some 0
      else None)"

subsection \<open>Tiles, agents, grid\<close>

text \<open>The rendering fields of a tile (\<^verbatim>\<open>x\<close>, \<^verbatim>\<open>y\<close>, \<^verbatim>\<open>z\<close>, \<^verbatim>\<open>size\<close>) are left out.\<close>

record Tile =
  tile_q :: int
  tile_r :: int
  state :: int
  level :: int
  targetLevel :: int
  morphProgress :: rat
  morphStartTime :: rat

definition new_Tile :: "int \<Rightarrow> int \<Rightarrow> Tile" where
  "new_Tile q r =
     \<lparr>tile_q = q, tile_r = r, state = 0, level = 0, targetLevel = 0,
      morphProgress = 1, morphStartTime = 0\<rparr>"

text \<open>\<^verbatim>\<open>this.morphDuration\<close> is set to 1000 by the constructor and never written again.\<close>

definition morphDuration :: rat where "morphDuration = 1000"

text \<open>An agent refers to its tile by the tile's index in the grid's array.\<close>

record Agent =
  tile :: nat
  alive :: bool

record Grid =
  nRows :: int
  nCols :: int
  tiles :: "Tile list"
  agents :: "Agent list"

text \<open>\<^verbatim>\<open>_createTiles\<close>: rows outside, columns inside, so tile \<open>(q, r)\<close> sits at index
  \<open>r * nCols + q\<close>.\<close>

definition createTiles :: "int \<Rightarrow> int \<Rightarrow> Tile list" where
  "createTiles rows cols =
     concat (map (\<lambda>r. map (\<lambda>q. new_Tile q r) [0..<nat cols]) [0..<nat rows])"

definition new_Grid :: "int \<Rightarrow> int \<Rightarrow> Grid" where
  "new_Grid rows cols =
     \<lparr>nRows = rows, nCols = cols, tiles = createTiles rows cols, agents = []\<rparr>"

text \<open>\<^verbatim>\<open>getTile\<close>: \<open>None\<close> is \<^verbatim>\<open>null\<close>. The array read is within the array on every
  grid built by the constructor, which \<open>wf_grid\<close> below records.\<close>

definition getTileIndex :: "Grid \<Rightarrow> int \<Rightarrow> int \<Rightarrow> nat option" where
  "getTileIndex g q r =
     (if q < 0 \<or> q \<ge> nCols g \<or> r < 0 \<or> r \<ge> nRows g then None
      else Some (nat (r * nCols g + q)))"

definition getTile :: "Grid \<Rightarrow> int \<Rightarrow> int \<Rightarrow> Tile option" where
  "getTile g q r = map_option (\<lambda>i. tiles g ! i) (getTileIndex g q r)"

text \<open>JavaScript's \<^verbatim>\<open>%\<close> truncates towards zero.\<close>

definition js_rem :: "int \<Rightarrow> int \<Rightarrow> int" where
  "js_rem a b = sgn a * (\<bar>a\<bar> mod \<bar>b\<bar>)"

definition directions :: "int \<Rightarrow> (int \<times> int) list" where
  "directions q =
     (if js_rem q 2 = 1
      then [(1, 0), (1, 1), (0, 1), (-1, 1), (-1, 0), (0, -1)]
      else [(1, -1), (1, 0), (0, 1), (-1, 0), (-1, -1), (0, -1)])"

text \<open>\<^verbatim>\<open>getNeighbors\<close>: map every direction through \<^verbatim>\<open>getTile\<close>, then drop the
  \<^verbatim>\<open>null\<close> results. \<open>neighborLookups\<close> is the array after \<^verbatim>\<open>.filter\<close>, still holding
  the lookup results; \<open>getNeighborIndices\<close> and \<open>getNeighbors\<close> read it as tile
  references and as tiles.\<close>

definition neighborLookups :: "Grid \<Rightarrow> int \<Rightarrow> int \<Rightarrow> nat option list" where
  "neighborLookups g q r =
     filter (\<lambda>t. t \<noteq> None) (map (\<lambda>(dq, dr). getTileIndex g (q + dq) (r + dr)) (directions q))"

definition getNeighborIndices :: "Grid \<Rightarrow> int \<Rightarrow> int \<Rightarrow> nat list" where
  "getNeighborIndices g q r = map the (neighborLookups g q r)"

definition getNeighbors :: "Grid \<Rightarrow> int \<Rightarrow> int \<Rightarrow> Tile list" where
  "getNeighbors g q r = map (\<lambda>i. tiles g ! i) (getNeighborIndices g q r)"

text \<open>\<^verbatim>\<open>offsetToCube\<close>: \<open>q - (q & 1)\<close> is even, so the division by 2 is exact.\<close>

definition offsetToCube :: "int \<Rightarrow> int \<Rightarrow> int \<times> int \<times> int" where
  "offsetToCube q r =
     (let x = q; z = r - (q - (q AND 1)) div 2; y = - x - z in (x, y, z))"

definition hexDistance :: "Tile \<Rightarrow> Tile \<Rightarrow> int" where
  "hexDistance tile1 tile2 =
     (case (offsetToCube (tile_q tile1) (tile_r tile1),
            offsetToCube (tile_q tile2) (tile_r tile2)) of
        ((ax, ay, az), (bx, by, bz)) \<Rightarrow>
          max (max \<bar>ax - bx\<bar> \<bar>ay - by\<bar>) \<bar>az - bz\<bar>)"

definition getTilesInRange :: "Grid \<Rightarrow> int \<Rightarrow> int \<Rightarrow> int \<Rightarrow> nat list" where
  "getTilesInRange g q r rng =
     (case getTile g q r of
        None \<Rightarrow> []
      | Some center \<Rightarrow>
          filter (\<lambda>i. hexDistance center (tiles g ! i) \<le> rng) [0..<length (tiles g)])"

text \<open>The layout every grid has from its constructor on: coordinates are never
  written after \<^verbatim>\<open>new Tile\<close>, and the array is never resized.\<close>

definition wf_grid :: "Grid \<Rightarrow> bool" where
  "wf_grid g \<longleftrightarrow>
     0 \<le> nRows g \<and> 0 \<le> nCols g \<and>
     map (\<lambda>t. (tile_q t, tile_r t)) (tiles g) =
       concat (map (\<lambda>r. map (\<lambda>q. (int q, int r)) [0..<nat (nCols g)]) [0..<nat (nRows g)])"

definition in_bounds :: "Grid \<Rightarrow> int \<Rightarrow> int \<Rightarrow> bool" where
  "in_bounds g q r \<longleftrightarrow> 0 \<le> q \<and> q < nCols g \<and> 0 \<le> r \<and> r < nRows g"

subsection \<open>The host: random numbers, clock, frame counter, controls\<close>

text \<open>
  \<^verbatim>\<open>random\<close>, \<^verbatim>\<open>randomSeed\<close>, \<^verbatim>\<open>millis\<close> and \<^verbatim>\<open>frameCount\<close> belong to the p5.js host, which
  is not part of the repository. They are parameters of the model: \<open>generator seed\<close> is
  the sequence of raw 32-bit outputs the host's generator produces after
  \<^verbatim>\<open>randomSeed(seed)\<close>, \<open>samples\<close> the sequence in use and \<open>rpos\<close> the number of draws made
  from it; \<open>clock\<close> is the sequence of values successive calls of \<^verbatim>\<open>millis()\<close>
  return and \<open>cpos\<close> the number of calls made.
\<close>

record P5 =
  generator :: "int \<Rightarrow> nat \<Rightarrow> nat"
  samples :: "nat \<Rightarrow> nat"
  rpos :: nat
  clock :: "nat \<Rightarrow> rat"
  cpos :: nat
  frameCount :: int

text \<open>\<^verbatim>\<open>random()\<close>: the next raw output scaled into \<open>[0, 1)\<close>.\<close>

definition random :: "P5 \<Rightarrow> rat \<times> P5" where
  "random e = (of_nat (samples e (rpos e) mod 2 ^ 32) / 2 ^ 32, e\<lparr>rpos := rpos e + 1\<rparr>)"

text \<open>\<^verbatim>\<open>random(array)\<close>: the element at \<open>floor(random() * length)\<close>; \<open>None\<close> is the
  \<^verbatim>\<open>undefined\<close> read from an empty array.\<close>

definition random_choice :: "'a list \<Rightarrow> P5 \<Rightarrow> 'a option \<times> P5" where
  "random_choice xs e =
     (case random e of (u, e') \<Rightarrow>
        (let k = nat \<lfloor>u * of_nat (length xs)\<rfloor>
         in (if k < length xs then Some (xs ! k) else None, e')))"

definition randomSeed :: "int \<Rightarrow> P5 \<Rightarrow> P5" where
  "randomSeed sd e = e\<lparr>samples := generator e sd, rpos := 0\<rparr>"

definition millis :: "P5 \<Rightarrow> rat \<times> P5" where
  "millis e = (clock e (cpos e), e\<lparr>cpos := cpos e + 1\<rparr>)"

record Controls =
  spawnRate :: int
  maxAgents :: int
  stickingProb :: rat
  evolveRate :: int
  shadowFactor :: rat
  biasedWalkChance :: rat
  paused :: bool
  decayRate :: int
  decayProb :: rat
  seed :: int

definition default_controls :: Controls where
  "default_controls =
     \<lparr>spawnRate = 2, maxAgents = 50, stickingProb = 7 / 10, evolveRate = 15,
      shadowFactor = 1 / 2, biasedWalkChance = 3 / 10, paused = False,
      decayRate = 20, decayProb = 505 / 1000, seed = 42\<rparr>"

subsection \<open>Tile methods\<close>

text \<open>\<^verbatim>\<open>canPromote\<close> of the tile at index \<open>i\<close>. \<^verbatim>\<open>n !== this\<close> compares references,
  here indices.\<close>

definition canPromote :: "Controls \<Rightarrow> Grid \<Rightarrow> nat \<Rightarrow> bool" where
  "canPromote c g i =
     (let this = tiles g ! i in
      if state this \<noteq> STATE_CRYSTALLIZED then False
      else
        let neighbors = getNeighbors g (tile_q this) (tile_r this);
            currentLevel = level this
        in case EVOLUTION currentLevel of
             None \<Rightarrow> False
           | Some config \<Rightarrow>
               let lowerNeighbors =
                     filter (\<lambda>n. state n = STATE_CRYSTALLIZED \<and> level n \<le> currentLevel) neighbors;
                   servedEnough = (int (length lowerNeighbors) \<ge> threshold config);
                   inShadow =
                     (case SERVICE_RANGE (nxt config) of
                        None \<Rightarrow> False
                      | Some sr \<Rightarrow>
                          let shadowRadius = of_int sr * shadowFactor c
                          in list_ex
                               (\<lambda>j. j \<noteq> i \<and>
                                    state (tiles g ! j) = STATE_CRYSTALLIZED \<and>
                                    of_int (hexDistance this (tiles g ! j)) \<le> shadowRadius \<and>
                                    level (tiles g ! j) \<ge> nxt config)
                               [0..<length (tiles g)])
               in servedEnough \<and> \<not> inShadow)"

definition setTargetLevel :: "int \<Rightarrow> Tile \<Rightarrow> P5 \<Rightarrow> Tile \<times> P5" where
  "setTargetLevel newLevel t e =
     (if newLevel = level t then (t, e)
      else case millis e of (now, e') \<Rightarrow>
        (t\<lparr>targetLevel := newLevel, morphProgress := 0, morphStartTime := now\<rparr>, e'))"

text \<open>p5's \<^verbatim>\<open>constrain(n, low, high)\<close> is \<^verbatim>\<open>Math.max(Math.min(n, high), low)\<close>.\<close>

definition constrain :: "rat \<Rightarrow> rat \<Rightarrow> rat \<Rightarrow> rat" where
  "constrain n low high = max (min n high) low"

definition ease :: "rat \<Rightarrow> rat" where
  "ease p = (if p < 1 / 2 then 4 * p * p * p else 1 - (- 2 * p + 2) ^ 3 / 2)"

definition updateMorphing :: "Tile \<Rightarrow> P5 \<Rightarrow> Tile \<times> P5" where
  "updateMorphing t e =
     (if morphProgress t \<ge> 1 then (t, e)
      else case millis e of (now, e') \<Rightarrow>
        (let elapsed = now - morphStartTime t;
             t1 = t\<lparr>morphProgress := ease (constrain (elapsed / morphDuration) 0 1)\<rparr>
         in if morphProgress t1 \<ge> 1
            then (let t2 = t1\<lparr>level := targetLevel t1\<rparr>
                  in if targetLevel t2 = LEVEL_EMPTY
                     then (t2\<lparr>state := STATE_EMPTY\<rparr>, e')
                     else (t2, e'))
            else (t1, e')))"

subsection \<open>Agent methods\<close>

definition couldBeCandidate :: "Grid \<Rightarrow> Agent \<Rightarrow> bool" where
  "couldBeCandidate g a =
     (let this_tile = tiles g ! tile a;
          neighbors = getNeighbors g (tile_q this_tile) (tile_r this_tile)
      in list_ex (\<lambda>n. state n = STATE_CRYSTALLIZED) neighbors)"

text \<open>\<^verbatim>\<open>aggregate(rho)\<close> returns its result, the agent, the tiles and the host state.\<close>

definition aggregate :: "rat \<Rightarrow> Grid \<Rightarrow> Agent \<Rightarrow> P5 \<Rightarrow> bool \<times> Agent \<times> Grid \<times> P5" where
  "aggregate rho g a e =
     (if \<not> alive a then (False, a, g, e)
      else if state (tiles g ! tile a) = STATE_CRYSTALLIZED then (False, a, g, e)
      else if couldBeCandidate g a then
        (let g1 = g\<lparr>tiles := (tiles g)[tile a := (tiles g ! tile a)\<lparr>state := STATE_CANDIDATE\<rparr>]\<rparr>
         in case random e of (u, e') \<Rightarrow>
              if u < rho
              then (True, a\<lparr>alive := False\<rparr>,
                    g1\<lparr>tiles := (tiles g1)[tile a :=
                          (tiles g1 ! tile a)\<lparr>state := STATE_CRYSTALLIZED, level := LEVEL_HOUSE\<rparr>]\<rparr>,
                    e')
              else (False, a, g1, e'))
      else (False, a, g, e))"

text \<open>A score is a JavaScript number: finite, or \<^verbatim>\<open>Infinity\<close> from \<^verbatim>\<open>1 / 0\<close>.\<close>

datatype Score = Num rat | Infinity

fun score_le :: "Score \<Rightarrow> Score \<Rightarrow> bool" where
  "score_le _ Infinity = True"
| "score_le Infinity (Num _) = False"
| "score_le (Num a) (Num b) = (a \<le> b)"

text \<open>\<^verbatim>\<open>getServiceScore(tile)\<close> for the tile at index \<open>i\<close>; \<open>None\<close> is the TypeError of
  reading \<^verbatim>\<open>.q\<close> of a \<^verbatim>\<open>null\<close> centre tile.\<close>

definition serviceContribution :: "Grid \<Rightarrow> Tile \<Rightarrow> Tile \<Rightarrow> int" where
  "serviceContribution g t other =
     (if state other \<noteq> STATE_CRYSTALLIZED then 0
      else if level other < LEVEL_HOUSE then 0
      else case SERVICE_RANGE (level other) of
             None \<Rightarrow> 0
           | Some rg \<Rightarrow>
               (let dist = hexDistance t other
                in if dist \<le> rg then rg - dist + 1 else 0))"

definition getServiceScore :: "Grid \<Rightarrow> nat \<Rightarrow> Score option" where
  "getServiceScore g i =
     (let t = tiles g ! i;
          score = sum_list (map (serviceContribution g t) (tiles g))
      in if score = 0 then
           (case getTile g (nCols g div 2) (nRows g div 2) of
              None \<Rightarrow> None
            | Some centerTile \<Rightarrow>
                (let d = hexDistance t centerTile
                 in if d = 0 then Some Infinity else Some (Num (1 / of_int d))))
         else Some (Num (of_int score)))"

text \<open>\<^verbatim>\<open>scored.sort((a, b) => b.score - a.score)\<close>: a stable sort into descending
  order of score.\<close>

fun insort_desc :: "nat \<times> Score \<Rightarrow> (nat \<times> Score) list \<Rightarrow> (nat \<times> Score) list" where
  "insort_desc x [] = [x]"
| "insort_desc x (y # ys) =
     (if score_le (snd y) (snd x) then x # y # ys else y # insort_desc x ys)"

definition sort_desc :: "(nat \<times> Score) list \<Rightarrow> (nat \<times> Score) list" where
  "sort_desc xs = foldr insort_desc xs []"

fun scoreAll :: "Grid \<Rightarrow> nat list \<Rightarrow> (nat \<times> Score) list option" where
  "scoreAll g [] = Some []"
| "scoreAll g (n # ns) =
     (case getServiceScore g n of
        None \<Rightarrow> None
      | Some sc \<Rightarrow> (case scoreAll g ns of None \<Rightarrow> None | Some rest \<Rightarrow> Some ((n, sc) # rest)))"

text \<open>\<^verbatim>\<open>walk()\<close>; \<open>None\<close> is a thrown TypeError.\<close>

definition walk :: "Controls \<Rightarrow> Grid \<Rightarrow> Agent \<Rightarrow> P5 \<Rightarrow> (Agent \<times> P5) option" where
  "walk c g a e =
     (if \<not> alive a then Some (a, e)
      else
        let this_tile = tiles g ! tile a;
            neighbors = getNeighborIndices g (tile_q this_tile) (tile_r this_tile)
        in if length neighbors = 0 then Some (a, e)
           else case random e of (u, e') \<Rightarrow>
             if u < biasedWalkChance c then
               (case scoreAll g neighbors of
                  None \<Rightarrow> None
                | Some scored \<Rightarrow> Some (a\<lparr>tile := fst (hd (sort_desc scored))\<rparr>, e'))
             else
               (case random_choice neighbors e' of
                  (None, e'') \<Rightarrow> None
                | (Some n, e'') \<Rightarrow> Some (a\<lparr>tile := n\<rparr>, e'')))"

subsection \<open>Grid methods\<close>

definition edgeLookups :: "Grid \<Rightarrow> nat option list" where
  "edgeLookups g =
     concat (map (\<lambda>q. [getTileIndex g (int q) 0, getTileIndex g (int q) (nRows g - 1)])
                 [0..<nat (nCols g)])
     @ concat (map (\<lambda>r. [getTileIndex g 0 (int r), getTileIndex g (nCols g - 1) (int r)])
                   [1..<nat (nRows g - 1)])"

definition getRandomEdgeTile :: "Grid \<Rightarrow> P5 \<Rightarrow> nat option \<times> P5" where
  "getRandomEdgeTile g e =
     random_choice (map the (filter (\<lambda>t. t \<noteq> None) (edgeLookups g))) e"

text \<open>\<^verbatim>\<open>spawnAgent()\<close> returns the new agent or \<^verbatim>\<open>null\<close>, the grid and the host state.\<close>

definition spawnAgent :: "Grid \<Rightarrow> P5 \<Rightarrow> Agent option \<times> Grid \<times> P5" where
  "spawnAgent g e =
     (case getRandomEdgeTile g e of
        (None, e') \<Rightarrow> (None, g, e')
      | (Some edge, e') \<Rightarrow>
          if state (tiles g ! edge) \<noteq> STATE_CRYSTALLIZED
          then (let agent = \<lparr>tile = edge, alive = True\<rparr>
                in (Some agent, g\<lparr>agents := agents g @ [agent]\<rparr>, e'))
          else (None, g, e'))"

definition seedCenter :: "Grid \<Rightarrow> Grid" where
  "seedCenter g =
     (case getTileIndex g (nCols g div 2) (nRows g div 2) of
        None \<Rightarrow> g
      | Some ci \<Rightarrow>
          g\<lparr>tiles := (tiles g)[ci :=
               (tiles g ! ci)\<lparr>state := STATE_CRYSTALLIZED, level := LEVEL_HOUSE\<rparr>]\<rparr>)"

text \<open>The apply loop of \<^verbatim>\<open>evolveAll\<close>; \<open>None\<close> is the TypeError of reading \<^verbatim>\<open>.next\<close> of
  a missing rule.\<close>

fun evolveApply :: "nat list \<Rightarrow> Tile list \<Rightarrow> P5 \<Rightarrow> (Tile list \<times> P5) option" where
  "evolveApply [] ts e = Some (ts, e)"
| "evolveApply (i # is) ts e =
     (case EVOLUTION (level (ts ! i)) of
        None \<Rightarrow> None
      | Some config \<Rightarrow>
          (case setTargetLevel (nxt config) (ts ! i) e of
             (t', e') \<Rightarrow> evolveApply is (ts[i := t']) e'))"

definition toEvolve :: "Controls \<Rightarrow> Grid \<Rightarrow> nat list" where
  "toEvolve c g =
     filter (\<lambda>i. morphProgress (tiles g ! i) \<ge> 1 \<and> canPromote c g i) [0..<length (tiles g)]"

definition evolveAll :: "Controls \<Rightarrow> Grid \<Rightarrow> P5 \<Rightarrow> (Grid \<times> P5) option" where
  "evolveAll c g e =
     map_option (\<lambda>(ts, e'). (g\<lparr>tiles := ts\<rparr>, e')) (evolveApply (toEvolve c g) (tiles g) e)"

definition canDieFromCompetition :: "Grid \<Rightarrow> nat \<Rightarrow> bool" where
  "canDieFromCompetition g i =
     (let t = tiles g ! i;
          inRange = (case SERVICE_RANGE (level t) of
                       None \<Rightarrow> []
                     | Some rg \<Rightarrow> getTilesInRange g (tile_q t) (tile_r t) rg);
          competitors = filter (\<lambda>j. j \<noteq> i \<and> level (tiles g ! j) = level t) inRange
      in case MAX_COMPETITORS (level t) of
           None \<Rightarrow> False
         | Some m \<Rightarrow> int (length competitors) > m)"

definition isServedBy :: "Grid \<Rightarrow> nat \<Rightarrow> bool" where
  "isServedBy g i =
     (let t = tiles g ! i in
      if level t \<ge> LEVEL_FACTORY then \<not> canDieFromCompetition g i
      else list_ex
             (\<lambda>j. j \<noteq> i \<and>
                  state (tiles g ! j) = STATE_CRYSTALLIZED \<and>
                  \<not> level (tiles g ! j) \<le> level t \<and>
                  (case SERVICE_RANGE (level (tiles g ! j)) of
                     None \<Rightarrow> False
                   | Some rg \<Rightarrow> hexDistance t (tiles g ! j) \<le> rg))
             [0..<length (tiles g)])"

text \<open>The collecting loop of \<^verbatim>\<open>decayPass\<close>: \<^verbatim>\<open>random()\<close> is only called for an
  unserved tile.\<close>

fun decayCollect :: "Controls \<Rightarrow> Grid \<Rightarrow> nat list \<Rightarrow> P5 \<Rightarrow> nat list \<times> P5" where
  "decayCollect c g [] e = ([], e)"
| "decayCollect c g (i # is) e =
     (if state (tiles g ! i) \<noteq> STATE_CRYSTALLIZED then decayCollect c g is e
      else if morphProgress (tiles g ! i) < 1 then decayCollect c g is e
      else if \<not> isServedBy g i then
        (case random e of (u, e') \<Rightarrow>
           if u < decayProb c
           then (case decayCollect c g is e' of (rest, e'') \<Rightarrow> (i # rest, e''))
           else decayCollect c g is e')
      else decayCollect c g is e)"

fun decayApply :: "nat list \<Rightarrow> Tile list \<Rightarrow> P5 \<Rightarrow> Tile list \<times> P5" where
  "decayApply [] ts e = (ts, e)"
| "decayApply (i # is) ts e =
     (let newLevel = level (ts ! i) - 1
      in case (if newLevel < LEVEL_HOUSE
               then setTargetLevel LEVEL_EMPTY (ts ! i) e
               else setTargetLevel newLevel (ts ! i) e) of
           (t', e') \<Rightarrow> decayApply is (ts[i := t']) e')"

definition nonEmptyCount :: "Grid \<Rightarrow> nat" where
  "nonEmptyCount g = length (filter (\<lambda>t. state t \<noteq> STATE_EMPTY) (tiles g))"

definition decayPass :: "Controls \<Rightarrow> Grid \<Rightarrow> P5 \<Rightarrow> Grid \<times> P5" where
  "decayPass c g e =
     (if nonEmptyCount g \<le> 10 then (g, e)
      else case decayCollect c g [0..<length (tiles g)] e of
             (toDemote, e') \<Rightarrow>
               (case decayApply toDemote (tiles g) e' of
                  (ts, e'') \<Rightarrow> (g\<lparr>tiles := ts\<rparr>, e'')))"

subsection \<open>The sketch: setup, the Reset button, one frame\<close>

record Sketch =
  controls :: Controls
  rows :: int
  cols :: int
  grid :: Grid
  p5 :: P5

text \<open>The loop \<^verbatim>\<open>for (const agent of grid.agents) { agent.walk(); agent.aggregate(...) }\<close>
  over the agents still to visit; the visited ones are returned in order.\<close>

fun updateAgents :: "Controls \<Rightarrow> Agent list \<Rightarrow> Grid \<Rightarrow> P5 \<Rightarrow> (Agent list \<times> Grid \<times> P5) option" where
  "updateAgents c [] g e = Some ([], g, e)"
| "updateAgents c (a # as) g e =
     (case walk c g a e of
        None \<Rightarrow> None
      | Some (a1, e1) \<Rightarrow>
          (case aggregate (stickingProb c) g a1 e1 of
             (_, a2, g2, e2) \<Rightarrow>
               (case updateAgents c as g2 e2 of
                  None \<Rightarrow> None
                | Some (rest, g3, e3) \<Rightarrow> Some (a2 # rest, g3, e3))))"

fun updateAllMorphing :: "Tile list \<Rightarrow> P5 \<Rightarrow> Tile list \<times> P5" where
  "updateAllMorphing [] e = ([], e)"
| "updateAllMorphing (t # ts) e =
     (case updateMorphing t e of
        (t', e') \<Rightarrow> (case updateAllMorphing ts e' of (ts', e'') \<Rightarrow> (t' # ts', e'')))"

text \<open>\<^verbatim>\<open>x % rate === 0\<close>: never true for rate 0, where \<^verbatim>\<open>%\<close> gives \<^verbatim>\<open>NaN\<close>.\<close>

definition on_cadence :: "int \<Rightarrow> int \<Rightarrow> bool" where
  "on_cadence fc rate \<longleftrightarrow> rate \<noteq> 0 \<and> js_rem fc rate = 0"

text \<open>The simulation part of \<^verbatim>\<open>draw()\<close>; what follows it in \<^verbatim>\<open>draw()\<close> only renders.\<close>

definition draw :: "Sketch \<Rightarrow> Sketch option" where
  "draw s =
     (let c = controls s in
      if paused c then Some s
      else
        case (if on_cadence (frameCount (p5 s)) (spawnRate c) \<and>
                 int (length (agents (grid s))) < maxAgents c
              then (case spawnAgent (grid s) (p5 s) of (_, g, e) \<Rightarrow> (g, e))
              else (grid s, p5 s)) of
          (g1, e1) \<Rightarrow>
            (case updateAgents c (agents g1) g1 e1 of
               None \<Rightarrow> None
             | Some (as2, g2, e2) \<Rightarrow>
                 (let g3 = g2\<lparr>agents := filter alive as2\<rparr>
                  in case (if on_cadence (frameCount (p5 s)) (evolveRate c)
                           then evolveAll c g3 e2 else Some (g3, e2)) of
                       None \<Rightarrow> None
                     | Some (g4, e4) \<Rightarrow>
                         (case (if on_cadence (frameCount (p5 s)) (decayRate c)
                                then decayPass c g4 e4 else (g4, e4)) of
                            (g5, e5) \<Rightarrow>
                              (case updateAllMorphing (tiles g5) e5 of
                                 (ts, e6) \<Rightarrow>
                                   Some (s\<lparr>grid := g5\<lparr>tiles := ts\<rparr>, p5 := e6\<rparr>))))))"

text \<open>The host increments \<^verbatim>\<open>frameCount\<close> and then calls \<^verbatim>\<open>draw()\<close>.\<close>

definition frame :: "Sketch \<Rightarrow> Sketch option" where
  "frame s = draw (s\<lparr>p5 := (p5 s)\<lparr>frameCount := frameCount (p5 s) + 1\<rparr>\<rparr>)"

fun frames :: "nat \<Rightarrow> Sketch \<Rightarrow> Sketch option" where
  "frames 0 s = Some s"
| "frames (Suc n) s = (case frame s of None \<Rightarrow> None | Some s' \<Rightarrow> frames n s')"

text \<open>The Reset button's handler, with the number parsed from the seed field
  (\<^verbatim>\<open>parseInt(...) || controls.seed\<close>: 0 falls back to the current seed).\<close>

definition reset :: "int \<Rightarrow> Sketch \<Rightarrow> Sketch" where
  "reset parsed s =
     (let newSeed = (if parsed = 0 then seed (controls s) else parsed)
      in s\<lparr>controls := (controls s)\<lparr>seed := newSeed\<rparr>,
           p5 := randomSeed newSeed (p5 s),
           grid := seedCenter (new_Grid (rows s) (cols s))\<rparr>)"

text \<open>What the rendering host reads of a tile.\<close>

definition snapshot :: "Sketch \<Rightarrow> (int \<times> int \<times> int \<times> rat) list" where
  "snapshot s = map (\<lambda>t. (state t, level t, targetLevel t, morphProgress t)) (tiles (grid s))"

subsection \<open>Auxiliary notions and example states for the properties\<close>

text \<open>The three cube coordinates of a tile.\<close>

definition cube_x :: "Tile \<Rightarrow> int" where "cube_x t = fst (offsetToCube (tile_q t) (tile_r t))"

definition cube_y :: "Tile \<Rightarrow> int" where "cube_y t = fst (snd (offsetToCube (tile_q t) (tile_r t)))"

definition cube_z :: "Tile \<Rightarrow> int" where "cube_z t = snd (snd (offsetToCube (tile_q t) (tile_r t)))"

text \<open>A host whose generator only yields 0 and whose clock stands at 0; the 3 by 3
  grid after seeding; a 3 by 3 grid with three Crystallized Houses.\<close>

definition host0 :: P5 where
  "host0 = \<lparr>generator = (\<lambda>_ _. 0), samples = (\<lambda>_. 0), rpos = 0,
            clock = (\<lambda>_. 0), cpos = 0, frameCount = 0\<rparr>"

definition grid_seeded :: Grid where
  "grid_seeded = seedCenter (new_Grid 3 3)"

definition mk_tile :: "int \<Rightarrow> int \<Rightarrow> int \<Rightarrow> int \<Rightarrow> Tile" where
  "mk_tile q r st lv = (new_Tile q r)\<lparr>state := st, level := lv\<rparr>"

definition grid_three :: Grid where
  "grid_three =
     \<lparr>nRows = 3, nCols = 3,
      tiles = [mk_tile 0 0 0 0, mk_tile 1 0 2 1, mk_tile 2 0 0 0,
               mk_tile 0 1 2 1, mk_tile 1 1 2 1, mk_tile 2 1 0 0,
               mk_tile 0 2 0 0, mk_tile 1 2 0 0, mk_tile 2 2 0 0],
      agents = []\<rparr>"

definition tile_ok :: "Tile \<Rightarrow> bool" where
  "tile_ok t \<longleftrightarrow>
     LEVEL_EMPTY \<le> level t \<and> level t \<le> LEVEL_FACTORY \<and>
     (state t = STATE_EMPTY \<or> state t = STATE_CANDIDATE \<or> state t = STATE_CRYSTALLIZED) \<and>
     LEVEL_EMPTY \<le> targetLevel t \<and> targetLevel t \<le> LEVEL_FACTORY"

definition grid_ok :: "Grid \<Rightarrow> bool" where
  "grid_ok g \<longleftrightarrow> list_all tile_ok (tiles g)"

text \<open>The grids the engine can produce from a fresh grid.\<close>

inductive reach :: "Grid \<Rightarrow> bool" where
  reach_new: "reach (new_Grid nr nc)"
| reach_seed: "reach g \<Longrightarrow> reach (seedCenter g)"
| reach_aggregate: "reach g \<Longrightarrow> aggregate rho g a e = (ok, a', g', e') \<Longrightarrow> reach g'"
| reach_evolve: "reach g \<Longrightarrow> evolveAll c g e = Some (g', e') \<Longrightarrow> reach g'"
| reach_decay: "reach g \<Longrightarrow> decayPass c g e = (g', e') \<Longrightarrow> reach g'"
| reach_morph: "reach g \<Longrightarrow> updateAllMorphing (tiles g) e = (ts, e') \<Longrightarrow> reach (g\<lparr>tiles := ts\<rparr>)"

definition demoteTarget :: "int \<Rightarrow> int" where
  "demoteTarget l = (if l - 1 < LEVEL_HOUSE then LEVEL_EMPTY else l - 1)"

text \<open>A tile in the middle of a morph from House to Shop, started at time 0, and a host
  whose clock reads 1000.\<close>

definition tile_morphing :: Tile where
  "tile_morphing = (mk_tile 1 1 2 1)\<lparr>targetLevel := 2, morphProgress := 0, morphStartTime := 0\<rparr>"

definition host1000 :: P5 where
  "host1000 = host0\<lparr>clock := (\<lambda>_. 1000)\<rparr>"

text \<open>The value \<^verbatim>\<open>random()\<close> returns at position \<open>n\<close> of the sequence in use.\<close>

definition sample_at :: "P5 \<Rightarrow> nat \<Rightarrow> rat" where
  "sample_at e n = of_nat (samples e n mod 2 ^ 32) / 2 ^ 32"

text \<open>Two rows of five Houses; three rows of four tiles, eleven of them Houses.\<close>

definition grid_ten :: Grid where
  "grid_ten =
     \<lparr>nRows = 2, nCols = 5,
      tiles = [mk_tile 0 0 2 1, mk_tile 1 0 2 1, mk_tile 2 0 2 1, mk_tile 3 0 2 1, mk_tile 4 0 2 1,
               mk_tile 0 1 2 1, mk_tile 1 1 2 1, mk_tile 2 1 2 1, mk_tile 3 1 2 1, mk_tile 4 1 2 1],
      agents = []\<rparr>"

definition grid_eleven :: Grid where
  "grid_eleven =
     \<lparr>nRows = 3, nCols = 4,
      tiles = [mk_tile 0 0 2 1, mk_tile 1 0 2 1, mk_tile 2 0 2 1, mk_tile 3 0 2 1,
               mk_tile 0 1 2 1, mk_tile 1 1 2 1, mk_tile 2 1 2 1, mk_tile 3 1 2 1,
               mk_tile 0 2 2 1, mk_tile 1 2 2 1, mk_tile 2 2 2 1, mk_tile 3 2 0 0],
      agents = []\<rparr>"

text \<open>The tile lies on the rectangular boundary of the index space.\<close>

definition on_edge :: "Grid \<Rightarrow> Tile \<Rightarrow> bool" where
  "on_edge g t \<longleftrightarrow>
     tile_q t = 0 \<or> tile_q t = nCols g - 1 \<or> tile_r t = 0 \<or> tile_r t = nRows g - 1"

text \<open>A host whose generator only yields \<open>2 ^ 30\<close>, that is the sample 1/4.\<close>

definition host_quarter :: P5 where
  "host_quarter = host0\<lparr>samples := (\<lambda>_. 2 ^ 30)\<rparr>"

text \<open>The sketch with the default controls on the grid of three Houses, one frame before
  a spawn tick.\<close>

definition sketch_three :: Sketch where
  "sketch_three =
     \<lparr>controls = default_controls, rows = 3, cols = 3, grid = grid_three,
      p5 = host_quarter\<lparr>frameCount := 1\<rparr>\<rparr>"

text \<open>Agents that stick with certainty, sent one after the other onto the given tiles.\<close>

fun grow :: "nat list \<Rightarrow> Grid \<Rightarrow> Grid" where
  "grow [] g = g"
| "grow (k # ks) g = grow ks (fst (snd (snd (aggregate 1 g \<lparr>tile = k, alive = True\<rparr> host0))))"

text \<open>The array \<^verbatim>\<open>edgeTiles.filter((t) => t !== null)\<close> of \<^verbatim>\<open>_getRandomEdgeTile\<close>, as tile
  references, and the coordinates it is built from.\<close>

definition edgeTiles :: "Grid \<Rightarrow> nat list" where
  "edgeTiles g = map the (filter (\<lambda>t. t \<noteq> None) (edgeLookups g))"

definition edgeCoords :: "Grid \<Rightarrow> (int \<times> int) list" where
  "edgeCoords g =
     concat (map (\<lambda>q. [(int q, 0), (int q, nRows g - 1)]) [0..<nat (nCols g)])
     @ concat (map (\<lambda>r. [(0, int r), (nCols g - 1, int r)]) [1..<nat (nRows g - 1)])"

text \<open>What \<^verbatim>\<open>draw()\<close> does after its spawn step, as a function of the grid and the host
  state the spawn step leaves.\<close>

definition drawAfterSpawn :: "Sketch \<Rightarrow> Grid \<times> P5 \<Rightarrow> Sketch option" where
  "drawAfterSpawn s ge =
     (let c = controls s in
      case ge of
        (g1, e1) \<Rightarrow>
          (case updateAgents c (agents g1) g1 e1 of
             None \<Rightarrow> None
           | Some (as2, g2, e2) \<Rightarrow>
               (let g3 = g2\<lparr>agents := filter alive as2\<rparr>
                in case (if on_cadence (frameCount (p5 s)) (evolveRate c)
                         then evolveAll c g3 e2 else Some (g3, e2)) of
                     None \<Rightarrow> None
                   | Some (g4, e4) \<Rightarrow>
                       (case (if on_cadence (frameCount (p5 s)) (decayRate c)
                              then decayPass c g4 e4 else (g4, e4)) of
                          (g5, e5) \<Rightarrow>
                            (case updateAllMorphing (tiles g5) e5 of
                               (ts, e6) \<Rightarrow>
                                 Some (s\<lparr>grid := g5\<lparr>tiles := ts\<rparr>, p5 := e6\<rparr>))))))"

text \<open>The sketch with the default controls on the grid of three Houses, at a spawn tick,
  with the generator that only yields 0.\<close>

definition sketch_spawn :: Sketch where
  "sketch_spawn =
     \<lparr>controls = default_controls, rows = 3, cols = 3, grid = grid_three,
      p5 = host0\<lparr>frameCount := 2\<rparr>\<rparr>"

section \<open>Properties of the grid\<close>

lemmas consts_defs =
  STATE_EMPTY_def STATE_CANDIDATE_def STATE_CRYSTALLIZED_def
  LEVEL_EMPTY_def LEVEL_HOUSE_def LEVEL_SHOP_def LEVEL_TOWER_def LEVEL_FACTORY_def

lemma hexDistance_cheb:
  "hexDistance a b = max (max \<bar>cube_x a - cube_x b\<bar> \<bar>cube_y a - cube_y b\<bar>) \<bar>cube_z a - cube_z b\<bar>"
  by (simp add: hexDistance_def cube_x_def cube_y_def cube_z_def split: prod.splits)

lemma cheb_triangle:
  fixes x1 y1 z1 x2 y2 z2 x3 y3 z3 :: int
  shows "max (max \<bar>x1 - x3\<bar> \<bar>y1 - y3\<bar>) \<bar>z1 - z3\<bar>
         \<le> max (max \<bar>x1 - x2\<bar> \<bar>y1 - y2\<bar>) \<bar>z1 - z2\<bar> + max (max \<bar>x2 - x3\<bar> \<bar>y2 - y3\<bar>) \<bar>z2 - z3\<bar>"
proof -
  let ?D12 = "max (max \<bar>x1 - x2\<bar> \<bar>y1 - y2\<bar>) \<bar>z1 - z2\<bar>"
  let ?D23 = "max (max \<bar>x2 - x3\<bar> \<bar>y2 - y3\<bar>) \<bar>z2 - z3\<bar>"
  have x: "\<bar>x1 - x3\<bar> \<le> \<bar>x1 - x2\<bar> + \<bar>x2 - x3\<bar>" by simp
  have y: "\<bar>y1 - y3\<bar> \<le> \<bar>y1 - y2\<bar> + \<bar>y2 - y3\<bar>" by simp
  have z: "\<bar>z1 - z3\<bar> \<le> \<bar>z1 - z2\<bar> + \<bar>z2 - z3\<bar>" by simp
  have "\<bar>x1 - x2\<bar> \<le> ?D12" "\<bar>x2 - x3\<bar> \<le> ?D23" by simp_all
  with x have x': "\<bar>x1 - x3\<bar> \<le> ?D12 + ?D23" by (rule_tac order_trans [OF x]) (rule add_mono)
  have "\<bar>y1 - y2\<bar> \<le> ?D12" "\<bar>y2 - y3\<bar> \<le> ?D23" by simp_all
  with y have y': "\<bar>y1 - y3\<bar> \<le> ?D12 + ?D23" by (rule_tac order_trans [OF y]) (rule add_mono)
  have "\<bar>z1 - z2\<bar> \<le> ?D12" "\<bar>z2 - z3\<bar> \<le> ?D23" by simp_all
  with z have z': "\<bar>z1 - z3\<bar> \<le> ?D12 + ?D23" by (rule_tac order_trans [OF z]) (rule add_mono)
  from x' y' z' show ?thesis by (simp only: max.bounded_iff)
qed

text \<open>
  C8. \<^verbatim>\<open>hexDistance\<close>, the Chebyshev distance of the cube coordinates, vanishes on equal
  tiles, is symmetric and satisfies the triangle inequality.
\<close>

theorem hexDistance_metric:
  "hexDistance a a = 0 \<and>
   hexDistance a b = hexDistance b a \<and>
   hexDistance a c \<le> hexDistance a b + hexDistance b c"
  unfolding hexDistance_cheb
  by (intro conjI, simp, simp add: abs_minus_commute, rule cheb_triangle)

lemma hexDistance_cube:
  "hexDistance a b =
     max (max \<bar>tile_q a - tile_q b\<bar>
              \<bar>(- tile_q a - (tile_r a - (tile_q a - tile_q a mod 2) div 2))
                - (- tile_q b - (tile_r b - (tile_q b - tile_q b mod 2) div 2))\<bar>)
         \<bar>(tile_r a - (tile_q a - tile_q a mod 2) div 2)
            - (tile_r b - (tile_q b - tile_q b mod 2) div 2)\<bar>"
  by (simp add: hexDistance_def offsetToCube_def Let_def and_one_eq)


lemma length_concat_rows:
  "length (concat (map (\<lambda>r. map (\<lambda>q. f q r) [0..<n]) [0..<m])) = m * n"
  by (induction m) simp_all

lemma nth_concat_rows:
  "i < m \<Longrightarrow> j < n \<Longrightarrow>
   concat (map (\<lambda>r. map (\<lambda>q. f q r) [0..<n]) [0..<m]) ! (i * n + j) = f j i"
proof (induction m)
  case 0
  then show ?case by simp
next
  case (Suc m)
  show ?case
  proof (cases "i < m")
    case True
    have "i * n + j < m * n"
    proof -
      have "i * n + j < i * n + n" using Suc.prems by simp
      also have "\<dots> = Suc i * n" by simp
      also have "\<dots> \<le> m * n" using True by (intro mult_le_mono1) simp
      finally show ?thesis .
    qed
    then show ?thesis using Suc True by (simp add: nth_append length_concat_rows)
  next
    case False
    then have "i = m" using Suc.prems by simp
    then show ?thesis using Suc.prems by (simp add: nth_append length_concat_rows)
  qed
qed

lemma wf_grid_length: "wf_grid g \<Longrightarrow> length (tiles g) = nat (nRows g) * nat (nCols g)"
proof -
  assume "wf_grid g"
  then have "length (map (\<lambda>t. (tile_q t, tile_r t)) (tiles g)) = nat (nRows g) * nat (nCols g)"
    unfolding wf_grid_def by (simp only: length_concat_rows)
  then show ?thesis by simp
qed

lemma wf_grid_nth:
  assumes "wf_grid g" "0 \<le> q" "q < nCols g" "0 \<le> r" "r < nRows g"
  shows "nat (r * nCols g + q) < length (tiles g)"
    and "tile_q (tiles g ! nat (r * nCols g + q)) = q"
    and "tile_r (tiles g ! nat (r * nCols g + q)) = r"
proof -
  let ?i = "nat r" and ?j = "nat q" and ?m = "nat (nRows g)" and ?n = "nat (nCols g)"
  have ij: "?i < ?m" "?j < ?n" using assms by auto
  have idx: "nat (r * nCols g + q) = ?i * ?n + ?j"
    using assms by (simp add: nat_add_distrib nat_mult_distrib)
  have "?i * ?n + ?j < ?i * ?n + ?n" using ij by simp
  also have "\<dots> = Suc ?i * ?n" by simp
  also have "\<dots> \<le> ?m * ?n"
  proof -
    have "Suc ?i \<le> ?m" using ij(1) by linarith
    then show ?thesis by (rule mult_le_mono1)
  qed
  finally have lt: "?i * ?n + ?j < ?m * ?n" .
  then show len: "nat (r * nCols g + q) < length (tiles g)"
    using wf_grid_length [OF assms(1)] idx by simp
  have "map (\<lambda>t. (tile_q t, tile_r t)) (tiles g) ! (?i * ?n + ?j) = (int ?j, int ?i)"
    using assms(1) nth_concat_rows [OF ij, of "\<lambda>q r. (int q, int r)"]
    unfolding wf_grid_def by simp
  then have "(tile_q (tiles g ! (?i * ?n + ?j)), tile_r (tiles g ! (?i * ?n + ?j))) = (q, r)"
    using len idx assms by simp
  then show "tile_q (tiles g ! nat (r * nCols g + q)) = q"
    and "tile_r (tiles g ! nat (r * nCols g + q)) = r"
    using idx by simp_all
qed

lemma wf_new_Grid: "0 \<le> nr \<Longrightarrow> 0 \<le> nc \<Longrightarrow> wf_grid (new_Grid nr nc)"
  by (simp add: wf_grid_def new_Grid_def createTiles_def map_concat comp_def new_Tile_def)



lemma getTileIndex_iff: "getTileIndex g q r = (if in_bounds g q r then Some (nat (r * nCols g + q)) else None)"
  by (auto simp: getTileIndex_def in_bounds_def)

lemma neighbor_coords_gen:
  assumes "wf_grid g"
  shows "map (\<lambda>i. (tile_q (tiles g ! i), tile_r (tiles g ! i)))
           (map the (filter (\<lambda>t. t \<noteq> None) (map (\<lambda>(dq, dr). getTileIndex g (q + dq) (r + dr)) ds)))
         = filter (\<lambda>(a, b). in_bounds g a b) (map (\<lambda>(dq, dr). (q + dq, r + dr)) ds)"
proof (induction ds)
  case Nil
  show ?case by simp
next
  case (Cons d ds)
  obtain dq dr where d: "d = (dq, dr)" by (cases d)
  show ?case
  proof (cases "in_bounds g (q + dq) (r + dr)")
    case True
    then have "tile_q (tiles g ! nat ((r + dr) * nCols g + (q + dq))) = q + dq"
      and "tile_r (tiles g ! nat ((r + dr) * nCols g + (q + dq))) = r + dr"
      using wf_grid_nth [OF assms, of "q + dq" "r + dr"] by (simp_all add: in_bounds_def)
    then show ?thesis using Cons True by (simp add: d getTileIndex_iff)
  next
    case False
    then show ?thesis using Cons by (simp add: d getTileIndex_iff)
  qed
qed

lemma getNeighbors_coords:
  assumes "wf_grid g"
  shows "map (\<lambda>t. (tile_q t, tile_r t)) (getNeighbors g q r)
         = filter (\<lambda>(a, b). in_bounds g a b) (map (\<lambda>(dq, dr). (q + dq, r + dr)) (directions q))"
  using neighbor_coords_gen [OF assms, of q r "directions q"]
  by (simp add: getNeighbors_def getNeighborIndices_def neighborLookups_def comp_def)

lemma length_directions: "length (directions q) = 6"
  by (simp add: directions_def)

lemma js_rem_2: "0 \<le> q \<Longrightarrow> js_rem q 2 = 1 \<longleftrightarrow> q mod 2 = 1"
  by (cases "q = 0") (simp_all add: js_rem_def sgn_if)

lemma hexDistance_dir:
  assumes "(dq, dr) \<in> set (directions (tile_q c))" "0 \<le> tile_q c"
    and "tile_q t = tile_q c + dq" "tile_r t = tile_r c + dr"
  shows "hexDistance c t = 1"
proof (cases "tile_q c mod 2 = 1")
  case True
  then have "(dq, dr) \<in> {(1, 0), (1, 1), (0, 1), (-1, 1), (-1, 0), (0, -1)}"
    using assms(1,2) by (simp add: directions_def js_rem_2)
  then show ?thesis using True assms(3,4) unfolding hexDistance_cube
    by (elim insertE emptyE; simp; presburger)
next
  case False
  then have "(dq, dr) \<in> {(1, -1), (1, 0), (0, 1), (-1, 0), (-1, -1), (0, -1)}"
    using assms(1,2) by (simp add: directions_def js_rem_2)
  then show ?thesis using False assms(3,4) unfolding hexDistance_cube
    by (elim insertE emptyE; simp; presburger)
qed


text \<open>
  C9. \<^verbatim>\<open>getTile\<close> never fails: within the bounds it returns the tile whose coordinates
  are the ones asked for, outside them it returns \<^verbatim>\<open>null\<close>; and the array
  \<^verbatim>\<open>getNeighbors\<close> returns holds no \<^verbatim>\<open>null\<close>.
\<close>

theorem getTile_total:
  assumes "wf_grid g"
  shows "(in_bounds g q r \<longrightarrow>
            (\<exists>t. getTile g q r = Some t \<and> t \<in> set (tiles g) \<and> tile_q t = q \<and> tile_r t = r)) \<and>
         (\<not> in_bounds g q r \<longrightarrow> getTile g q r = None) \<and>
         None \<notin> set (neighborLookups g q' r') \<and>
         length (getNeighbors g q' r') = length (neighborLookups g q' r')"
proof (intro conjI impI)
  assume ib: "in_bounds g q r"
  then have "nat (r * nCols g + q) < length (tiles g)"
    and "tile_q (tiles g ! nat (r * nCols g + q)) = q"
    and "tile_r (tiles g ! nat (r * nCols g + q)) = r"
    using wf_grid_nth [OF assms, of q r] by (simp_all add: in_bounds_def)
  then show "\<exists>t. getTile g q r = Some t \<and> t \<in> set (tiles g) \<and> tile_q t = q \<and> tile_r t = r"
    using ib by (simp add: getTile_def getTileIndex_iff)
next
  assume "\<not> in_bounds g q r"
  then show "getTile g q r = None" by (simp add: getTile_def getTileIndex_iff)
next
  show "None \<notin> set (neighborLookups g q' r')" by (simp add: neighborLookups_def)
next
  show "length (getNeighbors g q' r') = length (neighborLookups g q' r')"
    by (simp add: getNeighbors_def getNeighborIndices_def)
qed

theorem getTile_total_witness:
  "wf_grid (new_Grid 3 3) \<and> in_bounds (new_Grid 3 3) 1 2 \<and> \<not> in_bounds (new_Grid 3 3) 3 0 \<and>
   (\<exists>t. getTile (new_Grid 3 3) 1 2 = Some t \<and> tile_q t = 1 \<and> tile_r t = 2) \<and>
   getTile (new_Grid 3 3) 3 0 = None \<and>
   None \<notin> set (neighborLookups (new_Grid 3 3) 0 0)"
proof -
  have wf: "wf_grid (new_Grid 3 3)" by (rule wf_new_Grid) simp_all
  have ib: "in_bounds (new_Grid 3 3) 1 2" "\<not> in_bounds (new_Grid 3 3) 3 0"
    by (simp_all add: in_bounds_def new_Grid_def)
  from getTile_total [OF wf, of 1 2 0 0] getTile_total [OF wf, of 3 0 0 0] wf ib
  show ?thesis by blast
qed

text \<open>
  C7. For a coordinate within the bounds, \<^verbatim>\<open>getNeighbors\<close> returns at most six tiles;
  their coordinates are the in-bounds ones among the six offsets of the direction table
  chosen by the parity of \<open>q\<close>, so each lies within the bounds, and each is at hex
  distance exactly 1 from the tile at \<open>(q, r)\<close>.
\<close>

theorem getNeighbors_adjacent:
  assumes "wf_grid g" and "in_bounds g q r"
  shows "length (getNeighbors g q r) \<le> 6 \<and>
         map (\<lambda>t. (tile_q t, tile_r t)) (getNeighbors g q r) =
           filter (\<lambda>(a, b). in_bounds g a b)
             (map (\<lambda>(dq, dr). (q + dq, r + dr))
                (if odd q then [(1, 0), (1, 1), (0, 1), (-1, 1), (-1, 0), (0, -1)]
                 else [(1, -1), (1, 0), (0, 1), (-1, 0), (-1, -1), (0, -1)])) \<and>
         (\<forall>t \<in> set (getNeighbors g q r).
            in_bounds g (tile_q t) (tile_r t) \<and>
            (\<forall>c. getTile g q r = Some c \<longrightarrow> hexDistance c t = 1))"
proof (intro conjI ballI allI impI)
  have "length (getNeighbors g q r) \<le> length (directions q)"
    by (simp add: getNeighbors_def getNeighborIndices_def neighborLookups_def
        order_trans [OF length_filter_le])
  then show "length (getNeighbors g q r) \<le> 6" by (simp add: length_directions)
next
  have q0: "0 \<le> q" using assms(2) by (simp add: in_bounds_def)
  have "directions q = (if odd q then [(1, 0), (1, 1), (0, 1), (-1, 1), (-1, 0), (0, -1)]
                 else [(1, -1), (1, 0), (0, 1), (-1, 0), (-1, -1), (0, -1)])"
    using js_rem_2 [OF q0] by (simp add: directions_def odd_iff_mod_2_eq_one)
  then show "map (\<lambda>t. (tile_q t, tile_r t)) (getNeighbors g q r) =
           filter (\<lambda>(a, b). in_bounds g a b)
             (map (\<lambda>(dq, dr). (q + dq, r + dr))
                (if odd q then [(1, 0), (1, 1), (0, 1), (-1, 1), (-1, 0), (0, -1)]
                 else [(1, -1), (1, 0), (0, 1), (-1, 0), (-1, -1), (0, -1)]))"
    using getNeighbors_coords [OF assms(1), of q r] by simp
next
  fix t assume t: "t \<in> set (getNeighbors g q r)"
  then have "(tile_q t, tile_r t) \<in> set (map (\<lambda>t. (tile_q t, tile_r t)) (getNeighbors g q r))"
    by (simp add: image_iff) blast
  then have mem: "(tile_q t, tile_r t) \<in>
      set (filter (\<lambda>(a, b). in_bounds g a b) (map (\<lambda>(dq, dr). (q + dq, r + dr)) (directions q)))"
    by (simp only: getNeighbors_coords [OF assms(1)])
  then show "in_bounds g (tile_q t) (tile_r t)" by simp
  fix c assume c: "getTile g q r = Some c"
  have cq: "tile_q c = q" "tile_r c = r"
    using c assms(2) wf_grid_nth [OF assms(1), of q r]
    by (auto simp: getTile_def getTileIndex_iff in_bounds_def)
  from mem obtain dq dr where d: "(dq, dr) \<in> set (directions q)"
    and "tile_q t = q + dq" "tile_r t = r + dr" by auto
  then show "hexDistance c t = 1"
    using hexDistance_dir [of dq dr c t] cq assms(2) by (simp add: in_bounds_def)
qed

theorem getNeighbors_adjacent_witness:
  "wf_grid (new_Grid 3 3) \<and> in_bounds (new_Grid 3 3) 1 1 \<and>
   length (getNeighbors (new_Grid 3 3) 1 1) \<le> 6 \<and>
   list_all (\<lambda>t. hexDistance (new_Tile 1 1) t = 1) (getNeighbors (new_Grid 3 3) 1 1)"
proof -
  have wf: "wf_grid (new_Grid 3 3)" by (rule wf_new_Grid) simp_all
  have ib: "in_bounds (new_Grid 3 3) 1 1" by (simp add: in_bounds_def new_Grid_def)
  have c: "getTile (new_Grid 3 3) 1 1 = Some (new_Tile 1 1)"
    by (simp add: getTile_def getTileIndex_def new_Grid_def createTiles_def upt_rec [of _ 3] upt_rec [of _ 2] upt_rec [of _ 1 ] numeral_3_eq_3)
  from getNeighbors_adjacent [OF wf ib] c wf ib show ?thesis
    unfolding list_all_iff by blast
qed

lemma list_ex_upt: "list_ex P [0..<n] \<longleftrightarrow> (\<exists>j<n. P j)"
  by (auto simp: list_ex_iff)

lemma EVOLUTION_Some:
  "EVOLUTION l = Some cfg \<Longrightarrow> nxt cfg = l + 1 \<and> 1 \<le> l \<and> l \<le> 3 \<and> SERVICE_RANGE (nxt cfg) = Some (nxt cfg)"
  by (auto simp: EVOLUTION_def SERVICE_RANGE_def consts_defs split: if_splits)

text \<open>
  C5. \<^verbatim>\<open>canPromote\<close> returns true exactly when the tile is Crystallized, a promotion
  rule exists for its level, the Crystallized neighbours of at most that level reach the
  rule's threshold, and no Crystallized tile of at least the target level lies within
  the service range of the target level times the shadow factor. In particular a
  Crystallized House with exactly 2 such neighbours and no Crystallized Shop or higher
  within that radius can be promoted.
\<close>

theorem canPromote_spec:
  "(canPromote c g i \<longleftrightarrow>
      state (tiles g ! i) = STATE_CRYSTALLIZED \<and>
      (\<exists>config sr.
         EVOLUTION (level (tiles g ! i)) = Some config \<and>
         SERVICE_RANGE (nxt config) = Some sr \<and>
         threshold config \<le>
           int (length (filter (\<lambda>n. state n = STATE_CRYSTALLIZED \<and> level n \<le> level (tiles g ! i))
                          (getNeighbors g (tile_q (tiles g ! i)) (tile_r (tiles g ! i))))) \<and>
         (\<forall>j < length (tiles g).
            state (tiles g ! j) = STATE_CRYSTALLIZED \<and> nxt config \<le> level (tiles g ! j) \<longrightarrow>
            of_int sr * shadowFactor c < of_int (hexDistance (tiles g ! i) (tiles g ! j))))) \<and>
   (state (tiles g ! i) = STATE_CRYSTALLIZED \<and> level (tiles g ! i) = LEVEL_HOUSE \<and>
    length (filter (\<lambda>n. state n = STATE_CRYSTALLIZED \<and> level n \<le> LEVEL_HOUSE)
              (getNeighbors g (tile_q (tiles g ! i)) (tile_r (tiles g ! i)))) = 2 \<and>
    (\<forall>j < length (tiles g).
       state (tiles g ! j) = STATE_CRYSTALLIZED \<and> LEVEL_SHOP \<le> level (tiles g ! j) \<longrightarrow>
       of_int (the (SERVICE_RANGE LEVEL_SHOP)) * shadowFactor c
         < of_int (hexDistance (tiles g ! i) (tiles g ! j)))
    \<longrightarrow> canPromote c g i)"
proof -
  let ?t = "tiles g ! i"
  let ?cnt = "\<lambda>l. int (length (filter (\<lambda>n. state n = STATE_CRYSTALLIZED \<and> level n \<le> l)
                          (getNeighbors g (tile_q ?t) (tile_r ?t))))"
  let ?clear = "\<lambda>config sr. \<forall>j < length (tiles g).
            state (tiles g ! j) = STATE_CRYSTALLIZED \<and> nxt config \<le> level (tiles g ! j) \<longrightarrow>
            of_int sr * shadowFactor c < (of_int (hexDistance ?t (tiles g ! j)) :: rat)"
  have main: "canPromote c g i \<longleftrightarrow>
      state ?t = STATE_CRYSTALLIZED \<and>
      (\<exists>config sr. EVOLUTION (level ?t) = Some config \<and> SERVICE_RANGE (nxt config) = Some sr \<and>
         threshold config \<le> ?cnt (level ?t) \<and> ?clear config sr)"
  proof (cases "state ?t = STATE_CRYSTALLIZED")
    case False
    then show ?thesis by (simp add: canPromote_def)
  next
    case cr: True
    show ?thesis
    proof (cases "EVOLUTION (level ?t)")
      case None
      then show ?thesis using cr by (simp add: canPromote_def)
    next
      case (Some config)
      note facts = EVOLUTION_Some [OF Some]
      have self: "\<not> nxt config \<le> level ?t" using facts by simp
      have srn: "SERVICE_RANGE (nxt config) = Some (nxt config)" using facts by blast
      have "canPromote c g i \<longleftrightarrow>
          threshold config \<le> ?cnt (level ?t) \<and>
          \<not> (\<exists>j<length (tiles g). j \<noteq> i \<and> state (tiles g ! j) = STATE_CRYSTALLIZED \<and>
                 (of_int (hexDistance ?t (tiles g ! j)) :: rat) \<le> of_int (nxt config) * shadowFactor c \<and>
                 nxt config \<le> level (tiles g ! j))"
        using cr Some srn by (simp add: canPromote_def Let_def list_ex_upt)
      also have "\<dots> \<longleftrightarrow> threshold config \<le> ?cnt (level ?t) \<and> ?clear config (nxt config)"
        using self by (auto simp: not_le)
      finally show ?thesis using cr Some srn by simp
    qed
  qed
  have house: "EVOLUTION LEVEL_HOUSE = Some \<lparr>threshold = 2, nxt = LEVEL_SHOP\<rparr>"
    by (simp add: EVOLUTION_def)
  have sr: "SERVICE_RANGE LEVEL_SHOP = Some LEVEL_SHOP"
    by (simp add: SERVICE_RANGE_def consts_defs)
  show ?thesis
  proof (intro conjI impI)
    show "canPromote c g i \<longleftrightarrow>
      state ?t = STATE_CRYSTALLIZED \<and>
      (\<exists>config sr. EVOLUTION (level ?t) = Some config \<and> SERVICE_RANGE (nxt config) = Some sr \<and>
         threshold config \<le> ?cnt (level ?t) \<and> ?clear config sr)" by (rule main)
  next
    assume a: "state ?t = STATE_CRYSTALLIZED \<and> level ?t = LEVEL_HOUSE \<and>
      length (filter (\<lambda>n. state n = STATE_CRYSTALLIZED \<and> level n \<le> LEVEL_HOUSE)
              (getNeighbors g (tile_q ?t) (tile_r ?t))) = 2 \<and>
      (\<forall>j < length (tiles g).
         state (tiles g ! j) = STATE_CRYSTALLIZED \<and> LEVEL_SHOP \<le> level (tiles g ! j) \<longrightarrow>
         of_int (the (SERVICE_RANGE LEVEL_SHOP)) * shadowFactor c
           < of_int (hexDistance ?t (tiles g ! j)))"
    show "canPromote c g i"
      unfolding main using a house sr by simp
  qed
qed

lemma list_all_upt: "list_all P [0..<n] \<longleftrightarrow> (\<forall>j<n. P j)"
  by (auto simp: list_all_iff)

theorem canPromote_spec_witness:
  "state (tiles grid_three ! 4) = STATE_CRYSTALLIZED \<and>
   level (tiles grid_three ! 4) = LEVEL_HOUSE \<and>
   length (filter (\<lambda>n. state n = STATE_CRYSTALLIZED \<and> level n \<le> LEVEL_HOUSE)
             (getNeighbors grid_three (tile_q (tiles grid_three ! 4)) (tile_r (tiles grid_three ! 4)))) = 2 \<and>
   canPromote default_controls grid_three 4"
proof -
  have h1: "state (tiles grid_three ! 4) = STATE_CRYSTALLIZED" by code_simp
  have h2: "level (tiles grid_three ! 4) = LEVEL_HOUSE" by code_simp
  have h3: "length (filter (\<lambda>n. state n = STATE_CRYSTALLIZED \<and> level n \<le> LEVEL_HOUSE)
             (getNeighbors grid_three (tile_q (tiles grid_three ! 4)) (tile_r (tiles grid_three ! 4)))) = 2"
    by code_simp
  have "list_all (\<lambda>j. state (tiles grid_three ! j) = STATE_CRYSTALLIZED \<and> LEVEL_SHOP \<le> level (tiles grid_three ! j) \<longrightarrow>
       of_int (the (SERVICE_RANGE LEVEL_SHOP)) * shadowFactor default_controls
         < of_int (hexDistance (tiles grid_three ! 4) (tiles grid_three ! j))) [0..<length (tiles grid_three)]"
    by code_simp
  then have h4: "\<forall>j < length (tiles grid_three).
       state (tiles grid_three ! j) = STATE_CRYSTALLIZED \<and> LEVEL_SHOP \<le> level (tiles grid_three ! j) \<longrightarrow>
       of_int (the (SERVICE_RANGE LEVEL_SHOP)) * shadowFactor default_controls
         < of_int (hexDistance (tiles grid_three ! 4) (tiles grid_three ! j))"
    by (simp only: list_all_upt)
  from canPromote_spec [of default_controls grid_three 4] h1 h2 h3 h4 show ?thesis by blast
qed

text \<open>
  C6. \<^verbatim>\<open>aggregate\<close> does nothing and reports no success for a dead agent or on a
  Crystallized tile. Otherwise, when a neighbour of the agent's tile is Crystallized, one
  random sample is drawn: below the sticking probability the tile becomes Crystallized
  with level House, the agent dies and success is reported; otherwise the tile is left
  a Candidate, the agent stays alive and no success is reported. No other tile changes.
\<close>

theorem aggregate_spec:
  assumes "tile a < length (tiles g)"
  shows "(\<not> alive a \<or> state (tiles g ! tile a) = STATE_CRYSTALLIZED \<longrightarrow>
            aggregate rho g a e = (False, a, g, e)) \<and>
         (alive a \<and> state (tiles g ! tile a) \<noteq> STATE_CRYSTALLIZED \<and>
          (\<exists>n \<in> set (getNeighbors g (tile_q (tiles g ! tile a)) (tile_r (tiles g ! tile a))).
             state n = STATE_CRYSTALLIZED) \<longrightarrow>
            (case aggregate rho g a e of
               (ok, a', g', e') \<Rightarrow>
                 e' = snd (random e) \<and> rpos e' = rpos e + 1 \<and> tile a' = tile a \<and>
                 (\<forall>j. j \<noteq> tile a \<longrightarrow> tiles g' ! j = tiles g ! j) \<and>
                 (if fst (random e) < rho
                  then ok \<and> \<not> alive a' \<and>
                       state (tiles g' ! tile a) = STATE_CRYSTALLIZED \<and>
                       level (tiles g' ! tile a) = LEVEL_HOUSE
                  else \<not> ok \<and> alive a' \<and>
                       state (tiles g' ! tile a) = STATE_CANDIDATE \<and>
                       level (tiles g' ! tile a) = level (tiles g ! tile a))))"
proof (intro conjI impI)
  assume "\<not> alive a \<or> state (tiles g ! tile a) = STATE_CRYSTALLIZED"
  then show "aggregate rho g a e = (False, a, g, e)" by (auto simp: aggregate_def)
next
  assume h: "alive a \<and> state (tiles g ! tile a) \<noteq> STATE_CRYSTALLIZED \<and>
          (\<exists>n \<in> set (getNeighbors g (tile_q (tiles g ! tile a)) (tile_r (tiles g ! tile a))).
             state n = STATE_CRYSTALLIZED)"
  then have cand: "couldBeCandidate g a" by (simp add: couldBeCandidate_def list_ex_iff)
  show "case aggregate rho g a e of
               (ok, a', g', e') \<Rightarrow>
                 e' = snd (random e) \<and> rpos e' = rpos e + 1 \<and> tile a' = tile a \<and>
                 (\<forall>j. j \<noteq> tile a \<longrightarrow> tiles g' ! j = tiles g ! j) \<and>
                 (if fst (random e) < rho
                  then ok \<and> \<not> alive a' \<and>
                       state (tiles g' ! tile a) = STATE_CRYSTALLIZED \<and>
                       level (tiles g' ! tile a) = LEVEL_HOUSE
                  else \<not> ok \<and> alive a' \<and>
                       state (tiles g' ! tile a) = STATE_CANDIDATE \<and>
                       level (tiles g' ! tile a) = level (tiles g ! tile a))"
    using h cand assms by (simp add: aggregate_def Let_def random_def)
qed

theorem aggregate_spec_witness:
  "tile \<lparr>tile = 1, alive = True\<rparr> < length (tiles grid_seeded) \<and>
   aggregate (7 / 10) grid_seeded \<lparr>tile = 1, alive = False\<rparr> host0
     = (False, \<lparr>tile = 1, alive = False\<rparr>, grid_seeded, host0) \<and>
   (case aggregate (7 / 10) grid_seeded \<lparr>tile = 1, alive = True\<rparr> host0 of
      (ok, a', g', e') \<Rightarrow>
        ok \<and> \<not> alive a' \<and> state (tiles g' ! 1) = STATE_CRYSTALLIZED \<and>
        level (tiles g' ! 1) = LEVEL_HOUSE \<and> rpos e' = 1)"
proof -
  have len: "tile \<lparr>tile = 1, alive = True\<rparr> < length (tiles grid_seeded)"
    "tile \<lparr>tile = 1, alive = False\<rparr> < length (tiles grid_seeded)" by code_simp+
  have st: "state (tiles grid_seeded ! 1) \<noteq> STATE_CRYSTALLIZED" by code_simp
  have "list_ex (\<lambda>n. state n = STATE_CRYSTALLIZED)
          (getNeighbors grid_seeded (tile_q (tiles grid_seeded ! 1)) (tile_r (tiles grid_seeded ! 1)))"
    by code_simp
  then have nb: "\<exists>n \<in> set (getNeighbors grid_seeded (tile_q (tiles grid_seeded ! 1)) (tile_r (tiles grid_seeded ! 1))).
             state n = STATE_CRYSTALLIZED" by (simp only: list_ex_iff)
  have u: "fst (random host0) < 7 / 10" "rpos host0 = 0" by (simp_all add: random_def host0_def)
  from aggregate_spec [OF len(2), of "7 / 10" host0]
  have dead: "aggregate (7 / 10) grid_seeded \<lparr>tile = 1, alive = False\<rparr> host0
     = (False, \<lparr>tile = 1, alive = False\<rparr>, grid_seeded, host0)" by simp
  from aggregate_spec [OF len(1), of "7 / 10" host0] st nb u
  have "case aggregate (7 / 10) grid_seeded \<lparr>tile = 1, alive = True\<rparr> host0 of
      (ok, a', g', e') \<Rightarrow>
        ok \<and> \<not> alive a' \<and> state (tiles g' ! 1) = STATE_CRYSTALLIZED \<and>
        level (tiles g' ! 1) = LEVEL_HOUSE \<and> rpos e' = 1"
    by (auto split: prod.splits)
  with len dead show ?thesis by blast
qed

lemma setTargetLevel_level [simp]: "level (fst (setTargetLevel l t e)) = level t"
  by (simp add: setTargetLevel_def millis_def)

lemma setTargetLevel_state [simp]: "state (fst (setTargetLevel l t e)) = state t"
  by (simp add: setTargetLevel_def millis_def)

lemma setTargetLevel_target:
  "targetLevel (fst (setTargetLevel l t e)) = (if l = level t then targetLevel t else l)"
  by (simp add: setTargetLevel_def millis_def)

lemma setTargetLevel_ok:
  "tile_ok t \<Longrightarrow> LEVEL_EMPTY \<le> l \<Longrightarrow> l \<le> LEVEL_FACTORY \<Longrightarrow> tile_ok (fst (setTargetLevel l t e))"
  by (simp add: tile_ok_def setTargetLevel_target)

lemma updateMorphing_level:
  "level (fst (updateMorphing t e)) \<noteq> level t \<Longrightarrow>
   morphProgress t < 1 \<and> 1 \<le> morphProgress (fst (updateMorphing t e)) \<and>
   level (fst (updateMorphing t e)) = targetLevel t"
  by (auto simp: updateMorphing_def millis_def Let_def split: if_splits)

lemma updateMorphing_ok: "tile_ok t \<Longrightarrow> tile_ok (fst (updateMorphing t e))"
  by (auto simp: updateMorphing_def millis_def Let_def tile_ok_def consts_defs split: if_splits)

lemma updateAllMorphing_length [simp]: "length (fst (updateAllMorphing ts e)) = length ts"
  by (induction ts arbitrary: e) (simp_all add: split_beta)

lemma updateAllMorphing_nth:
  "j < length ts \<Longrightarrow> \<exists>e0. fst (updateAllMorphing ts e) ! j = fst (updateMorphing (ts ! j) e0)"
proof (induction ts arbitrary: e j)
  case Nil
  then show ?case by simp
next
  case (Cons t ts)
  obtain t' e' where u: "updateMorphing t e = (t', e')" by (cases "updateMorphing t e")
  obtain ts' e'' where r: "updateAllMorphing ts e' = (ts', e'')" by (cases "updateAllMorphing ts e'")
  show ?case
  proof (cases j)
    case 0
    then show ?thesis using u r by (auto intro!: exI [of _ e])
  next
    case (Suc k)
    then have "k < length ts" using Cons.prems by simp
    from Cons.IH [OF this, of e'] obtain e0 where "fst (updateAllMorphing ts e') ! k = fst (updateMorphing (ts ! k) e0)" ..
    then show ?thesis using Suc u r by (auto intro!: exI [of _ e0])
  qed
qed

lemma updateAllMorphing_ok: "list_all tile_ok ts \<Longrightarrow> list_all tile_ok (fst (updateAllMorphing ts e))"
  by (induction ts arbitrary: e) (simp_all add: split_beta updateMorphing_ok)

lemma nth_update_level:
  "level t' = level (ts ! i) \<Longrightarrow> level (ts[i := t'] ! j) = level (ts ! j)"
  by (cases "i < length ts"; cases "i = j") (simp_all add: list_update_beyond not_less)

lemma map_level_update:
  "level t' = level (ts ! i) \<Longrightarrow> map level (ts[i := t']) = map level ts"
  by (cases "i < length ts") (simp_all add: map_update list_update_same_conv list_update_beyond not_less)

lemma list_all_update:
  "list_all P ts \<Longrightarrow> (i < length ts \<Longrightarrow> P t') \<Longrightarrow> list_all P (ts[i := t'])"
  by (cases "i < length ts")
    (auto simp: list_all_iff list_update_beyond not_less dest: set_update_subset_insert [THEN subsetD])

lemma list_all_nth: "list_all P ts \<Longrightarrow> i < length ts \<Longrightarrow> P (ts ! i)"
  by (simp add: list_all_iff)

lemma EVOLUTION_range:
  "EVOLUTION l = Some config \<Longrightarrow> LEVEL_HOUSE < nxt config \<and> nxt config \<le> LEVEL_FACTORY \<and> l \<noteq> LEVEL_FACTORY"
  by (auto simp: EVOLUTION_def consts_defs split: if_splits)

lemma evolveApply_levels:
  "evolveApply is ts e = Some (ts', e') \<Longrightarrow> map level ts' = map level ts"
proof (induction "is" arbitrary: ts e)
  case Nil
  then show ?case by simp
next
  case (Cons i "is")
  from Cons.prems obtain config where c: "EVOLUTION (level (ts ! i)) = Some config"
    by (auto split: option.splits)
  let ?t' = "fst (setTargetLevel (nxt config) (ts ! i) e)"
  let ?e' = "snd (setTargetLevel (nxt config) (ts ! i) e)"
  from Cons.prems c have "evolveApply is (ts[i := ?t']) ?e' = Some (ts', e')"
    by (simp add: split_beta)
  from Cons.IH [OF this] show ?case by (simp add: map_level_update)
qed

lemma evolveApply_ok:
  "list_all tile_ok ts \<Longrightarrow> evolveApply is ts e = Some (ts', e') \<Longrightarrow> list_all tile_ok ts'"
proof (induction "is" arbitrary: ts e)
  case Nil
  then show ?case by simp
next
  case (Cons i "is")
  from Cons.prems obtain config where c: "EVOLUTION (level (ts ! i)) = Some config"
    by (auto split: option.splits)
  let ?t' = "fst (setTargetLevel (nxt config) (ts ! i) e)"
  let ?e' = "snd (setTargetLevel (nxt config) (ts ! i) e)"
  from Cons.prems c have step: "evolveApply is (ts[i := ?t']) ?e' = Some (ts', e')"
    by (simp add: split_beta)
  have rng: "LEVEL_EMPTY \<le> nxt config" "nxt config \<le> LEVEL_FACTORY"
    using EVOLUTION_range [OF c] by (simp_all add: consts_defs)
  have "list_all tile_ok (ts[i := ?t'])"
    using Cons.prems(1) rng by (intro list_all_update) (auto intro: setTargetLevel_ok list_all_nth)
  from Cons.IH [OF this step] show ?case .
qed

lemma evolveApply_total:
  "(\<forall>i \<in> set is. EVOLUTION (level (ts ! i)) \<noteq> None) \<Longrightarrow> evolveApply is ts e \<noteq> None"
proof (induction "is" arbitrary: ts e)
  case Nil
  then show ?case by simp
next
  case (Cons i "is")
  from Cons.prems obtain config where c: "EVOLUTION (level (ts ! i)) = Some config" by auto
  let ?t' = "fst (setTargetLevel (nxt config) (ts ! i) e)"
  let ?e' = "snd (setTargetLevel (nxt config) (ts ! i) e)"
  have "\<forall>j \<in> set is. EVOLUTION (level (ts[i := ?t'] ! j)) \<noteq> None"
    using Cons.prems by (simp add: nth_update_level)
  from Cons.IH [OF this, of ?e'] show ?case using c by (simp add: split_beta)
qed

lemma canPromote_rule: "canPromote c g i \<Longrightarrow> EVOLUTION (level (tiles g ! i)) \<noteq> None"
  by (auto simp: canPromote_def Let_def split: if_splits option.splits)

lemma evolveAll_total: "evolveAll c g e \<noteq> None"
proof -
  have "\<forall>i \<in> set (toEvolve c g). EVOLUTION (level (tiles g ! i)) \<noteq> None"
    by (auto simp: toEvolve_def dest: canPromote_rule)
  then show ?thesis by (simp add: evolveAll_def evolveApply_total)
qed

lemma evolveAll_levels: "evolveAll c g e = Some (g', e') \<Longrightarrow> map level (tiles g') = map level (tiles g)"
  by (auto simp: evolveAll_def dest: evolveApply_levels)

lemma evolveAll_ok: "grid_ok g \<Longrightarrow> evolveAll c g e = Some (g', e') \<Longrightarrow> grid_ok g'"
  by (auto simp: evolveAll_def grid_ok_def dest: evolveApply_ok)

lemma decayApply_Cons:
  "decayApply (i # is) ts e =
     decayApply is (ts[i := fst (setTargetLevel (demoteTarget (level (ts ! i))) (ts ! i) e)])
       (snd (setTargetLevel (demoteTarget (level (ts ! i))) (ts ! i) e))"
  by (simp add: Let_def split_beta demoteTarget_def)

lemma decayApply_levels: "map level (fst (decayApply is ts e)) = map level ts"
  by (induction "is" arbitrary: ts e) (simp_all add: decayApply_Cons map_level_update del: decayApply.simps(2))

lemma decayApply_length [simp]: "length (fst (decayApply is ts e)) = length ts"
  using decayApply_levels [of "is" ts e, THEN arg_cong, of length] by simp

lemma demoteTarget_range:
  "LEVEL_EMPTY \<le> l \<Longrightarrow> l \<le> LEVEL_FACTORY \<Longrightarrow>
   LEVEL_EMPTY \<le> demoteTarget l \<and> demoteTarget l \<le> LEVEL_FACTORY"
  by (simp add: demoteTarget_def consts_defs)

lemma decayApply_ok: "list_all tile_ok ts \<Longrightarrow> list_all tile_ok (fst (decayApply is ts e))"
proof (induction "is" arbitrary: ts e)
  case Nil
  then show ?case by simp
next
  case (Cons i "is")
  let ?t' = "fst (setTargetLevel (demoteTarget (level (ts ! i))) (ts ! i) e)"
  have "list_all tile_ok (ts[i := ?t'])"
  proof (rule list_all_update [OF Cons.prems])
    assume "i < length ts"
    then have ok: "tile_ok (ts ! i)" using Cons.prems by (rule list_all_nth [rotated])
    then have "LEVEL_EMPTY \<le> level (ts ! i)" "level (ts ! i) \<le> LEVEL_FACTORY"
      by (simp_all add: tile_ok_def)
    from demoteTarget_range [OF this] ok show "tile_ok ?t'" by (simp add: setTargetLevel_ok)
  qed
  from Cons.IH [OF this] show ?case by (simp add: decayApply_Cons del: decayApply.simps(2))
qed

lemma decayPass_levels: "map level (tiles (fst (decayPass c g e))) = map level (tiles g)"
  by (simp add: decayPass_def split_beta decayApply_levels)

lemma decayPass_ok: "grid_ok g \<Longrightarrow> grid_ok (fst (decayPass c g e))"
  by (simp add: decayPass_def split_beta grid_ok_def decayApply_ok)

lemma aggregate_ok: "grid_ok g \<Longrightarrow> grid_ok (fst (snd (snd (aggregate rho g a e))))"
  by (auto simp: aggregate_def Let_def split_beta grid_ok_def tile_ok_def consts_defs
      intro!: list_all_update dest: list_all_nth)

lemma seedCenter_ok: "grid_ok g \<Longrightarrow> grid_ok (seedCenter g)"
  by (auto simp: seedCenter_def grid_ok_def tile_ok_def consts_defs
      split: option.splits intro!: list_all_update dest: list_all_nth)

lemma new_Grid_ok: "grid_ok (new_Grid nr nc)"
  by (auto simp: grid_ok_def new_Grid_def createTiles_def list_all_iff tile_ok_def new_Tile_def consts_defs)

lemma reach_ok: "reach g \<Longrightarrow> grid_ok g"
proof (induction rule: reach.induct)
  case (reach_new nr nc)
  show ?case by (rule new_Grid_ok)
next
  case (reach_seed g)
  then show ?case by (simp add: seedCenter_ok)
next
  case (reach_aggregate g rho a e ok a' g' e')
  from aggregate_ok [OF reach_aggregate.IH, of rho a e] reach_aggregate.hyps(2)
  show ?case by simp
next
  case (reach_evolve g c e g' e')
  then show ?case by (auto dest: evolveAll_ok)
next
  case (reach_decay g c e g' e')
  from decayPass_ok [OF reach_decay.IH, of c e] reach_decay.hyps(2) show ?case by simp
next
  case (reach_morph g e ts e')
  from updateAllMorphing_ok [of "tiles g" e] reach_morph show ?case by (simp add: grid_ok_def)
qed

lemma toEvolve_rule:
  "i \<in> set (toEvolve c g) \<Longrightarrow>
   \<exists>config. EVOLUTION (level (tiles g ! i)) = Some config \<and>
            LEVEL_HOUSE < nxt config \<and> nxt config \<le> LEVEL_FACTORY \<and>
            level (tiles g ! i) \<noteq> LEVEL_FACTORY"
proof -
  assume "i \<in> set (toEvolve c g)"
  then have "canPromote c g i" by (simp add: toEvolve_def)
  then obtain config where c: "EVOLUTION (level (tiles g ! i)) = Some config"
    using canPromote_rule by blast
  with EVOLUTION_range [OF c] show ?thesis by blast
qed

text \<open>
  C2, as the code has it. A tile's level changes in a morph advance only at the moment
  its morph completes (the progress goes from below 1 to 1), where it becomes the target
  level; evolution and decay passes and spawning change no level; the only other changes
  are the direct writes of level House by \<^verbatim>\<open>aggregate\<close>, on the agent's tile when it
  crystallizes, and by \<^verbatim>\<open>seedCenter\<close>, on the centre tile.
\<close>

theorem level_changes:
  "(level (fst (updateMorphing t e)) \<noteq> level t \<longrightarrow>
      morphProgress t < 1 \<and> 1 \<le> morphProgress (fst (updateMorphing t e)) \<and>
      level (fst (updateMorphing t e)) = targetLevel t) \<and>
   (\<forall>j < length ts.
      level (fst (updateAllMorphing ts e) ! j) \<noteq> level (ts ! j) \<longrightarrow>
        morphProgress (ts ! j) < 1 \<and> 1 \<le> morphProgress (fst (updateAllMorphing ts e) ! j) \<and>
        level (fst (updateAllMorphing ts e) ! j) = targetLevel (ts ! j)) \<and>
   (\<forall>g' e'. evolveAll c g e = Some (g', e') \<longrightarrow> map level (tiles g') = map level (tiles g)) \<and>
   map level (tiles (fst (decayPass c g e))) = map level (tiles g) \<and>
   tiles (fst (snd (spawnAgent g e))) = tiles g \<and>
   (\<forall>j < length (tiles g).
      level (tiles (fst (snd (snd (aggregate rho g a e)))) ! j) \<noteq> level (tiles g ! j) \<longrightarrow>
        j = tile a \<and> fst (aggregate rho g a e) \<and>
        level (tiles (fst (snd (snd (aggregate rho g a e)))) ! j) = LEVEL_HOUSE) \<and>
   (\<forall>j < length (tiles g).
      level (tiles (seedCenter g) ! j) \<noteq> level (tiles g ! j) \<longrightarrow>
        getTileIndex g (nCols g div 2) (nRows g div 2) = Some j \<and>
        level (tiles (seedCenter g) ! j) = LEVEL_HOUSE)"
proof (intro conjI allI impI)
  assume "level (fst (updateMorphing t e)) \<noteq> level t"
  from updateMorphing_level [OF this]
  show "morphProgress t < 1" "1 \<le> morphProgress (fst (updateMorphing t e))"
    "level (fst (updateMorphing t e)) = targetLevel t" by simp_all
next
  fix j assume j: "j < length ts"
    and ch: "level (fst (updateAllMorphing ts e) ! j) \<noteq> level (ts ! j)"
  from updateAllMorphing_nth [OF j, of e] obtain e0
    where eq: "fst (updateAllMorphing ts e) ! j = fst (updateMorphing (ts ! j) e0)" ..
  from ch updateMorphing_level [of "ts ! j" e0]
  show "morphProgress (ts ! j) < 1" "1 \<le> morphProgress (fst (updateAllMorphing ts e) ! j)"
    "level (fst (updateAllMorphing ts e) ! j) = targetLevel (ts ! j)"
    unfolding eq by simp_all
next
  fix g' e' assume "evolveAll c g e = Some (g', e')"
  then show "map level (tiles g') = map level (tiles g)" by (rule evolveAll_levels)
next
  show "map level (tiles (fst (decayPass c g e))) = map level (tiles g)"
    by (rule decayPass_levels)
next
  show "tiles (fst (snd (spawnAgent g e))) = tiles g"
    by (simp add: spawnAgent_def Let_def split: prod.splits option.splits)
next
  fix j assume "j < length (tiles g)"
    and "level (tiles (fst (snd (snd (aggregate rho g a e)))) ! j) \<noteq> level (tiles g ! j)"
  then have "j = tile a \<and> fst (aggregate rho g a e) \<and>
        level (tiles (fst (snd (snd (aggregate rho g a e)))) ! j) = LEVEL_HOUSE"
    by (cases "j = tile a") (auto simp: aggregate_def Let_def split_beta split: if_splits)
  then show "j = tile a" "fst (aggregate rho g a e)"
    "level (tiles (fst (snd (snd (aggregate rho g a e)))) ! j) = LEVEL_HOUSE" by blast+
next
  fix j assume "j < length (tiles g)"
    and "level (tiles (seedCenter g) ! j) \<noteq> level (tiles g ! j)"
  then have "getTileIndex g (nCols g div 2) (nRows g div 2) = Some j \<and>
        level (tiles (seedCenter g) ! j) = LEVEL_HOUSE"
    by (cases "getTileIndex g (nCols g div 2) (nRows g div 2) = Some j")
      (auto simp: seedCenter_def split: option.splits)
  then show "getTileIndex g (nCols g div 2) (nRows g div 2) = Some j"
    "level (tiles (seedCenter g) ! j) = LEVEL_HOUSE" by blast+
qed

lemma eval_updateMorphing:
  "updateMorphing tile_morphing host1000 =
     (tile_morphing\<lparr>morphProgress := 1, level := 2\<rparr>, host1000\<lparr>cpos := 1\<rparr>)"
  by (simp add: updateMorphing_def tile_morphing_def host1000_def host0_def millis_def
      morphDuration_def constrain_def ease_def Let_def mk_tile_def new_Tile_def consts_defs)

theorem level_changes_witness:
  "level (fst (updateMorphing tile_morphing host1000)) = 2 \<and> level tile_morphing = 1 \<and>
   morphProgress tile_morphing < 1 \<and>
   1 \<le> morphProgress (fst (updateMorphing tile_morphing host1000)) \<and>
   targetLevel tile_morphing = 2"
proof -
  have l: "level (fst (updateMorphing tile_morphing host1000)) = 2" "level tile_morphing = 1"
    "targetLevel tile_morphing = 2"
    by (simp_all add: eval_updateMorphing) (simp_all add: tile_morphing_def mk_tile_def new_Tile_def)
  from level_changes [of tile_morphing host1000] l show ?thesis by simp
qed

lemma grid_seeded_eq:
  "grid_seeded =
     \<lparr>nRows = 3, nCols = 3,
      tiles = [mk_tile 0 0 0 0, mk_tile 1 0 0 0, mk_tile 2 0 0 0,
               mk_tile 0 1 0 0, mk_tile 1 1 2 1, mk_tile 2 1 0 0,
               mk_tile 0 2 0 0, mk_tile 1 2 0 0, mk_tile 2 2 0 0],
      agents = []\<rparr>"
  by (simp add: grid_seeded_def seedCenter_def new_Grid_def createTiles_def getTileIndex_def
      mk_tile_def new_Tile_def consts_defs upt_conv_Cons)

lemma eval_aggregate_seeded:
  "aggregate (7 / 10) grid_seeded \<lparr>tile = 1, alive = True\<rparr> host0 =
     (True, \<lparr>tile = 1, alive = False\<rparr>,
      grid_seeded\<lparr>tiles := (tiles grid_seeded)[1 := mk_tile 1 0 2 1]\<rparr>, host0\<lparr>rpos := 1\<rparr>)"
  by (simp add: grid_seeded_eq aggregate_def couldBeCandidate_def getNeighbors_def
      getNeighborIndices_def neighborLookups_def getTileIndex_def directions_def js_rem_def
      random_def host0_def mk_tile_def new_Tile_def consts_defs Let_def)

text \<open>
  C2, as stated, fails: \<^verbatim>\<open>aggregate\<close> raises the level of the tile at index 1 of the
  seeded 3 by 3 grid from Empty to House while no morph is in flight on it (its progress
  is 1 before and after and the clock is not read), and \<^verbatim>\<open>seedCenter\<close> does the same to
  the centre tile of a fresh grid.
\<close>

theorem level_changes_counterexample:
  "level (tiles grid_seeded ! 1) = LEVEL_EMPTY \<and>
   morphProgress (tiles grid_seeded ! 1) = 1 \<and>
   level (tiles (fst (snd (snd (aggregate (7 / 10) grid_seeded \<lparr>tile = 1, alive = True\<rparr> host0)))) ! 1)
     = LEVEL_HOUSE \<and>
   morphProgress (tiles (fst (snd (snd (aggregate (7 / 10) grid_seeded \<lparr>tile = 1, alive = True\<rparr> host0)))) ! 1)
     = 1 \<and>
   cpos (snd (snd (snd (aggregate (7 / 10) grid_seeded \<lparr>tile = 1, alive = True\<rparr> host0)))) = cpos host0 \<and>
   level (tiles (new_Grid 3 3) ! 4) = LEVEL_EMPTY \<and>
   morphProgress (tiles (new_Grid 3 3) ! 4) = 1 \<and>
   level (tiles (seedCenter (new_Grid 3 3)) ! 4) = LEVEL_HOUSE \<and>
   morphProgress (tiles (seedCenter (new_Grid 3 3)) ! 4) = 1"
proof -
  have new: "tiles (new_Grid 3 3) ! 4 = new_Tile 1 1"
    by (simp add: new_Grid_def createTiles_def upt_conv_Cons)
  show ?thesis
    unfolding eval_aggregate_seeded grid_seeded_def [symmetric] new
    by (simp add: grid_seeded_eq mk_tile_def new_Tile_def consts_defs)
qed

lemma random_fst: "fst (random e) = sample_at e (rpos e)"
  by (simp add: random_def sample_at_def)

lemma random_snd_samples [simp]: "samples (snd (random e)) = samples e"
  by (simp add: random_def)

lemma sample_at_random [simp]: "sample_at (snd (random e)) n = sample_at e n"
  by (simp add: sample_at_def)

lemma decayCollect_Cons:
  "decayCollect c g (i # is) e =
     (if state (tiles g ! i) = STATE_CRYSTALLIZED \<and> 1 \<le> morphProgress (tiles g ! i) \<and>
         \<not> isServedBy g i
      then (if fst (random e) < decayProb c
            then (i # fst (decayCollect c g is (snd (random e))),
                  snd (decayCollect c g is (snd (random e))))
            else decayCollect c g is (snd (random e)))
      else decayCollect c g is e)"
  by (simp add: split_beta not_less)

lemma decayCollect_set:
  "set (fst (decayCollect c g is e)) \<subseteq>
     {i \<in> set is. state (tiles g ! i) = STATE_CRYSTALLIZED \<and> 1 \<le> morphProgress (tiles g ! i) \<and>
                  \<not> isServedBy g i}"
  by (induction "is" arbitrary: e) (auto simp: decayCollect_Cons simp del: decayCollect.simps(2))

lemma decayCollect_distinct: "distinct is \<Longrightarrow> distinct (fst (decayCollect c g is e))"
proof (induction "is" arbitrary: e)
  case Nil
  then show ?case by simp
next
  case (Cons i "is")
  have "i \<notin> set (fst (decayCollect c g is e'))" for e'
    using decayCollect_set [of c g "is" e'] Cons.prems by auto
  then show ?case using Cons by (simp add: decayCollect_Cons del: decayCollect.simps(2))
qed

lemma decayCollect_all:
  assumes "\<forall>n. sample_at e n < decayProb c"
  shows "fst (decayCollect c g is e) =
           filter (\<lambda>i. state (tiles g ! i) = STATE_CRYSTALLIZED \<and> 1 \<le> morphProgress (tiles g ! i) \<and>
                        \<not> isServedBy g i) is"
  using assms
proof (induction "is" arbitrary: e)
  case Nil
  then show ?case by simp
next
  case (Cons i "is")
  have "\<forall>n. sample_at (snd (random e)) n < decayProb c" using Cons.prems by simp
  from Cons.IH [OF this] Cons.IH [OF Cons.prems] Cons.prems
  show ?case by (simp add: decayCollect_Cons random_fst del: decayCollect.simps(2))
qed

lemma decayApply_other: "j \<notin> set is \<Longrightarrow> fst (decayApply is ts e) ! j = ts ! j"
  by (induction "is" arbitrary: ts e) (simp_all add: decayApply_Cons del: decayApply.simps(2))

lemma decayApply_nth:
  "distinct is \<Longrightarrow> i \<in> set is \<Longrightarrow> i < length ts \<Longrightarrow>
   \<exists>e0. fst (decayApply is ts e) ! i = fst (setTargetLevel (demoteTarget (level (ts ! i))) (ts ! i) e0)"
proof (induction "is" arbitrary: ts e)
  case Nil
  then show ?case by simp
next
  case (Cons k "is")
  let ?t' = "fst (setTargetLevel (demoteTarget (level (ts ! k))) (ts ! k) e)"
  let ?e' = "snd (setTargetLevel (demoteTarget (level (ts ! k))) (ts ! k) e)"
  show ?case
  proof (cases "i = k")
    case True
    then have "i \<notin> set is" using Cons.prems by simp
    from decayApply_other [OF this, of "ts[k := ?t']" ?e']
    have "fst (decayApply (k # is) ts e) ! i = ?t'"
      using True Cons.prems by (simp add: decayApply_Cons del: decayApply.simps(2))
    then show ?thesis using True by blast
  next
    case False
    then have "i \<in> set is" "distinct is" "i < length (ts[k := ?t'])" using Cons.prems by simp_all
    from Cons.IH [OF this(2) this(1) this(3), of ?e'] obtain e0 where
      "fst (decayApply is (ts[k := ?t']) ?e') ! i =
         fst (setTargetLevel (demoteTarget (level (ts[k := ?t'] ! i))) (ts[k := ?t'] ! i) e0)" ..
    then show ?thesis using False by (auto simp: decayApply_Cons simp del: decayApply.simps(2))
  qed
qed

lemma setTargetLevel_begins:
  "l \<noteq> level t \<Longrightarrow> morphProgress (fst (setTargetLevel l t e0)) = 0 \<and>
                      targetLevel (fst (setTargetLevel l t e0)) = l"
  by (simp add: setTargetLevel_def millis_def)

text \<open>
  C3, as the code has it. The decay pass does nothing at all while at most 10 tiles are
  non-Empty. With more than 10 non-Empty tiles it runs: every tile it collects that
  has a level of House or more begins a morph one level down (to Empty from House), and
  when every sample of the generator is below the decay probability it collects every
  Crystallized, non-morphing, unserved tile.
\<close>

theorem decayPass_grace:
  "(nonEmptyCount g \<le> 10 \<longrightarrow> decayPass c g e = (g, e)) \<and>
   (10 < nonEmptyCount g \<and> (\<forall>n. sample_at e n < decayProb c) \<longrightarrow>
      (\<forall>i < length (tiles g).
         state (tiles g ! i) = STATE_CRYSTALLIZED \<and> 1 \<le> morphProgress (tiles g ! i) \<and>
         \<not> isServedBy g i \<and> LEVEL_HOUSE \<le> level (tiles g ! i) \<longrightarrow>
           morphProgress (tiles (fst (decayPass c g e)) ! i) = 0 \<and>
           targetLevel (tiles (fst (decayPass c g e)) ! i) =
             (if level (tiles g ! i) = LEVEL_HOUSE then LEVEL_EMPTY else level (tiles g ! i) - 1)))"
proof (intro conjI impI allI)
  assume "nonEmptyCount g \<le> 10"
  then show "decayPass c g e = (g, e)" by (simp add: decayPass_def)
next
  fix i
  assume big: "10 < nonEmptyCount g \<and> (\<forall>n. sample_at e n < decayProb c)"
    and i: "i < length (tiles g)"
    and el: "state (tiles g ! i) = STATE_CRYSTALLIZED \<and> 1 \<le> morphProgress (tiles g ! i) \<and>
         \<not> isServedBy g i \<and> LEVEL_HOUSE \<le> level (tiles g ! i)"
  let ?is = "fst (decayCollect c g [0..<length (tiles g)] e)"
  let ?e' = "snd (decayCollect c g [0..<length (tiles g)] e)"
  have tiles': "tiles (fst (decayPass c g e)) = fst (decayApply ?is (tiles g) ?e')"
    using big by (simp add: decayPass_def split_beta)
  have mem: "i \<in> set ?is"
    using big i el by (simp add: decayCollect_all)
  have dist: "distinct ?is" by (rule decayCollect_distinct) simp
  from decayApply_nth [OF dist mem i, of ?e'] obtain e0 where
    eq: "fst (decayApply ?is (tiles g) ?e') ! i =
           fst (setTargetLevel (demoteTarget (level (tiles g ! i))) (tiles g ! i) e0)" ..
  have ne: "demoteTarget (level (tiles g ! i)) \<noteq> level (tiles g ! i)"
    using el by (simp add: demoteTarget_def consts_defs)
  have tgt: "demoteTarget (level (tiles g ! i)) =
      (if level (tiles g ! i) = LEVEL_HOUSE then LEVEL_EMPTY else level (tiles g ! i) - 1)"
    using el by (simp add: demoteTarget_def consts_defs)
  from setTargetLevel_begins [OF ne, of e0]
  show "morphProgress (tiles (fst (decayPass c g e)) ! i) = 0"
    and "targetLevel (tiles (fst (decayPass c g e)) ! i) =
             (if level (tiles g ! i) = LEVEL_HOUSE then LEVEL_EMPTY else level (tiles g ! i) - 1)"
    unfolding tiles' eq tgt by simp_all
qed

lemmas grid_eval_defs =
  getNeighbors_def getNeighborIndices_def neighborLookups_def getTileIndex_def getTile_def
  directions_def js_rem_def hexDistance_def offsetToCube_def SERVICE_RANGE_def EVOLUTION_def
  MAX_COMPETITORS_def mk_tile_def new_Tile_def consts_defs Let_def

lemma grid_ten_count: "nonEmptyCount grid_ten = 10"
  by (simp add: nonEmptyCount_def grid_ten_def mk_tile_def new_Tile_def consts_defs)

lemma grid_eleven_count: "nonEmptyCount grid_eleven = 11"
  by (simp add: nonEmptyCount_def grid_eleven_def mk_tile_def new_Tile_def consts_defs)

lemma grid_ten_unserved: "\<not> isServedBy grid_ten 0"
  by (simp add: isServedBy_def grid_ten_def grid_eval_defs)

lemma grid_eleven_unserved: "\<not> isServedBy grid_eleven 0"
  by (simp add: isServedBy_def grid_eleven_def grid_eval_defs)

lemma host0_samples: "sample_at host0 n = 0"
  by (simp add: sample_at_def host0_def)

theorem decayPass_grace_witness:
  "nonEmptyCount grid_ten \<le> 10 \<and> decayPass default_controls grid_ten host0 = (grid_ten, host0) \<and>
   10 < nonEmptyCount grid_eleven \<and> \<not> isServedBy grid_eleven 0 \<and>
   morphProgress (tiles (fst (decayPass default_controls grid_eleven host0)) ! 0) = 0 \<and>
   targetLevel (tiles (fst (decayPass default_controls grid_eleven host0)) ! 0) = LEVEL_EMPTY"
proof -
  have below: "\<forall>n. sample_at host0 n < decayProb default_controls"
    by (simp add: host0_samples default_controls_def)
  have t0: "0 < length (tiles grid_eleven)" "state (tiles grid_eleven ! 0) = STATE_CRYSTALLIZED"
    "1 \<le> morphProgress (tiles grid_eleven ! 0)" "LEVEL_HOUSE \<le> level (tiles grid_eleven ! 0)"
    "level (tiles grid_eleven ! 0) = LEVEL_HOUSE"
    by (simp_all add: grid_eleven_def mk_tile_def new_Tile_def consts_defs)
  from decayPass_grace [of grid_ten default_controls host0]
       decayPass_grace [of grid_eleven default_controls host0]
       grid_ten_count grid_eleven_count below t0 grid_eleven_unserved
  show ?thesis by simp
qed

text \<open>
  C3, as stated, fails at exactly 10 non-Empty tiles: on two rows of five Houses, none of
  them served, with every sample below the decay probability, the collecting scan would
  select tile 0, but the pass is still skipped and changes nothing.
\<close>

theorem decayPass_grace_counterexample:
  "nonEmptyCount grid_ten = 10 \<and>
   state (tiles grid_ten ! 0) = STATE_CRYSTALLIZED \<and>
   level (tiles grid_ten ! 0) = LEVEL_HOUSE \<and>
   morphProgress (tiles grid_ten ! 0) = 1 \<and>
   \<not> isServedBy grid_ten 0 \<and>
   fst (random host0) < decayProb default_controls \<and>
   hd (fst (decayCollect default_controls grid_ten [0..<length (tiles grid_ten)] host0)) = 0 \<and>
   fst (decayCollect default_controls grid_ten [0..<length (tiles grid_ten)] host0) \<noteq> [] \<and>
   decayPass default_controls grid_ten host0 = (grid_ten, host0)"
proof -
  have len: "[0..<length (tiles grid_ten)] = 0 # [1..<10]"
    by (simp add: grid_ten_def upt_conv_Cons)
  have t0: "state (tiles grid_ten ! 0) = STATE_CRYSTALLIZED" "level (tiles grid_ten ! 0) = LEVEL_HOUSE"
    "morphProgress (tiles grid_ten ! 0) = 1"
    by (simp_all add: grid_ten_def mk_tile_def new_Tile_def consts_defs)
  have u: "fst (random host0) < decayProb default_controls"
    by (simp add: random_def host0_def default_controls_def)
  have col: "fst (decayCollect default_controls grid_ten (0 # [1..<10]) host0) =
      0 # fst (decayCollect default_controls grid_ten [1..<10] (snd (random host0)))"
    using t0 u grid_ten_unserved by (simp add: decayCollect_Cons del: decayCollect.simps(2))
  have pass: "decayPass default_controls grid_ten host0 = (grid_ten, host0)"
    by (simp add: decayPass_def grid_ten_count)
  have h: "hd (fst (decayCollect default_controls grid_ten [0..<length (tiles grid_ten)] host0)) = 0"
    unfolding len col by simp
  have ne: "fst (decayCollect default_controls grid_ten [0..<length (tiles grid_ten)] host0) \<noteq> []"
    unfolding len col by simp
  from t0 u grid_ten_unserved grid_ten_count pass h ne show ?thesis by blast
qed

lemma random_range: "0 \<le> fst (random e) \<and> fst (random e) < 1"
proof -
  have "samples e (rpos e) mod 2 ^ 32 < 2 ^ 32" by simp
  then have "(of_nat (samples e (rpos e) mod 2 ^ 32) :: rat) < of_nat (2 ^ 32)"
    by (simp only: of_nat_less_iff)
  then show ?thesis by (simp add: random_def)
qed

lemma random_choice_snd [simp]: "snd (random_choice xs e) = snd (random e)"
  by (simp add: random_choice_def split_beta Let_def)

lemma random_choice_mem: "fst (random_choice xs e) = Some x \<Longrightarrow> x \<in> set xs"
  by (auto simp: random_choice_def split_beta Let_def split: if_splits)

lemma random_choice_Some: "xs \<noteq> [] \<Longrightarrow> fst (random_choice xs e) \<noteq> None"
proof -
  assume "xs \<noteq> []"
  then have pos: "0 < length xs" by simp
  let ?u = "fst (random e)"
  have u: "0 \<le> ?u" "?u < 1" using random_range [of e] by simp_all
  have "?u * of_nat (length xs) < of_nat (length xs)" using u pos by simp
  then have "\<lfloor>?u * of_nat (length xs)\<rfloor> < int (length xs)" by (simp add: floor_less_iff)
  moreover have "0 \<le> \<lfloor>?u * of_nat (length xs)\<rfloor>" using u by simp
  ultimately have "nat \<lfloor>?u * of_nat (length xs)\<rfloor> < length xs" by linarith
  then show ?thesis by (simp add: random_choice_def split_beta Let_def)
qed

lemma edgeLookups_mem:
  "Some k \<in> set (edgeLookups g) \<Longrightarrow>
   \<exists>q r. getTileIndex g q r = Some k \<and> (r = 0 \<or> r = nRows g - 1 \<or> q = 0 \<or> q = nCols g - 1)"
  by (auto simp: edgeLookups_def) metis+

lemma edge_tiles_mem:
  "k \<in> set (map the (filter (\<lambda>t. t \<noteq> None) (edgeLookups g))) \<Longrightarrow> Some k \<in> set (edgeLookups g)"
  by auto

lemma edge_tile_on_edge:
  assumes "wf_grid g" and "fst (getRandomEdgeTile g e) = Some k"
  shows "k < length (tiles g) \<and> on_edge g (tiles g ! k)"
proof -
  from assms(2) have "k \<in> set (map the (filter (\<lambda>t. t \<noteq> None) (edgeLookups g)))"
    unfolding getRandomEdgeTile_def by (rule random_choice_mem)
  then have "Some k \<in> set (edgeLookups g)" by (rule edge_tiles_mem)
  from edgeLookups_mem [OF this] obtain q r where
    idx: "getTileIndex g q r = Some k"
    and edge: "r = 0 \<or> r = nRows g - 1 \<or> q = 0 \<or> q = nCols g - 1" by blast
  from idx have ib: "in_bounds g q r" and k: "k = nat (r * nCols g + q)"
    by (auto simp: getTileIndex_iff split: if_splits)
  from wf_grid_nth [OF assms(1), of q r] ib
  have "k < length (tiles g)" "tile_q (tiles g ! k) = q" "tile_r (tiles g ! k) = r"
    unfolding k by (simp_all add: in_bounds_def)
  with edge show ?thesis by (auto simp: on_edge_def)
qed

lemma edge_tiles_nonempty:
  assumes "0 < nRows g" "0 < nCols g"
  shows "map the (filter (\<lambda>t. t \<noteq> None) (edgeLookups g)) \<noteq> []"
proof -
  have "0 \<in> set [0..<nat (nCols g)]" using assms by simp
  then have "getTileIndex g (int 0) 0 \<in> set (edgeLookups g)"
    unfolding edgeLookups_def by (auto intro!: bexI [of _ 0])
  moreover have "getTileIndex g (int 0) 0 \<noteq> None" using assms by (simp add: getTileIndex_def)
  ultimately have "\<exists>x \<in> set (edgeLookups g). x \<noteq> None" by blast
  then show ?thesis by (auto simp: filter_empty_conv)
qed

lemma grid_three_wf: "wf_grid grid_three"
  by (simp add: wf_grid_def grid_three_def mk_tile_def new_Tile_def upt_conv_Cons)

lemma grid_three_edges:
  "map the (filter (\<lambda>t. t \<noteq> None) (edgeLookups grid_three)) = [0, 6, 1, 7, 2, 8, 3, 5]"
  by (simp add: edgeLookups_def grid_three_def getTileIndex_def upt_conv_Cons)

lemma grid_three_pick0: "getRandomEdgeTile grid_three host0 = (Some 0, host0\<lparr>rpos := 1\<rparr>)"
  unfolding getRandomEdgeTile_def grid_three_edges
  by (simp add: random_choice_def random_def host0_def)

lemma grid_three_pick_quarter:
  "getRandomEdgeTile grid_three (host_quarter\<lparr>frameCount := 2\<rparr>) =
     (Some 1, host_quarter\<lparr>frameCount := 2, rpos := 1\<rparr>)"
  unfolding getRandomEdgeTile_def grid_three_edges
  by (simp add: random_choice_def random_def host_quarter_def host0_def)

lemma spawn_three:
  "spawnAgent grid_three (host_quarter\<lparr>frameCount := 2\<rparr>) =
     (None, grid_three, host_quarter\<lparr>frameCount := 2, rpos := 1\<rparr>)"
  by (simp add: spawnAgent_def grid_three_pick_quarter)
    (simp add: grid_three_def mk_tile_def new_Tile_def consts_defs)

lemma morph_idle: "list_all (\<lambda>t. 1 \<le> morphProgress t) ts \<Longrightarrow> updateAllMorphing ts e = (ts, e)"
  by (induction ts) (simp_all add: updateMorphing_def)

lemma frame_three:
  "frame sketch_three =
     Some (sketch_three\<lparr>p5 := host_quarter\<lparr>frameCount := 2, rpos := 1\<rparr>\<rparr>)"
proof -
  have idle: "updateAllMorphing (tiles grid_three) e = (tiles grid_three, e)" for e
    by (rule morph_idle) (simp add: grid_three_def mk_tile_def new_Tile_def)
  have cad: "on_cadence 2 2" "\<not> on_cadence 2 15" "\<not> on_cadence 2 20"
    by (simp_all add: on_cadence_def js_rem_def)
  have ag: "agents grid_three = []" by (simp add: grid_three_def)
  show ?thesis
    by (simp add: frame_def draw_def sketch_three_def default_controls_def cad ag spawn_three idle
        Let_def)
qed

lemma reach_aggregate_fst: "reach g \<Longrightarrow> reach (fst (snd (snd (aggregate rho g a e))))"
  by (cases "aggregate rho g a e") (auto intro: reach_aggregate)

lemma reach_grow: "reach g \<Longrightarrow> reach (grow ks g)"
  by (induction ks arbitrary: g) (simp_all add: reach_aggregate_fst)

lemmas aggregate_eval_defs =
  aggregate_def couldBeCandidate_def getNeighbors_def getNeighborIndices_def neighborLookups_def
  getTileIndex_def directions_def js_rem_def random_def host0_def mk_tile_def new_Tile_def
  consts_defs Let_def

lemma grid_three_grow: "grow [1, 3] (seedCenter (new_Grid 3 3)) = grid_three"
  unfolding grid_seeded_def [symmetric] grid_seeded_eq
  by (simp add: grid_three_def aggregate_eval_defs)

lemma seeded_3_4:
  "seedCenter (new_Grid 3 4) =
     \<lparr>nRows = 3, nCols = 4,
      tiles = [mk_tile 0 0 0 0, mk_tile 1 0 0 0, mk_tile 2 0 0 0, mk_tile 3 0 0 0,
               mk_tile 0 1 0 0, mk_tile 1 1 0 0, mk_tile 2 1 2 1, mk_tile 3 1 0 0,
               mk_tile 0 2 0 0, mk_tile 1 2 0 0, mk_tile 2 2 0 0, mk_tile 3 2 0 0],
      agents = []\<rparr>"
  by (simp add: seedCenter_def new_Grid_def createTiles_def getTileIndex_def
      mk_tile_def new_Tile_def consts_defs upt_conv_Cons)

lemma grid_eleven_grow:
  "grow [1, 0, 2, 3, 4, 5, 7, 8, 9, 10] (seedCenter (new_Grid 3 4)) = grid_eleven"
  unfolding seeded_3_4
  by (simp add: grid_eleven_def aggregate_eval_defs)

lemma reach_grid_three: "reach grid_three"
  unfolding grid_three_grow [symmetric] by (intro reach_grow reach_seed reach_new)

lemma reach_grid_eleven: "reach grid_eleven"
  unfolding grid_eleven_grow [symmetric] by (intro reach_grow reach_seed reach_new)

lemma evolveApply_other:
  "evolveApply is ts e = Some (ts', e') \<Longrightarrow> j \<notin> set is \<Longrightarrow> ts' ! j = ts ! j"
proof (induction "is" arbitrary: ts e)
  case Nil
  then show ?case by simp
next
  case (Cons i "is")
  from Cons.prems obtain config where c: "EVOLUTION (level (ts ! i)) = Some config"
    by (auto split: option.splits)
  let ?t' = "fst (setTargetLevel (nxt config) (ts ! i) e)"
  let ?e' = "snd (setTargetLevel (nxt config) (ts ! i) e)"
  from Cons.prems c have step: "evolveApply is (ts[i := ?t']) ?e' = Some (ts', e')"
    by (simp add: split_beta)
  from Cons.prems have "j \<notin> set is" "i \<noteq> j" by auto
  from Cons.IH [OF step this(1)] this(2) show ?case by simp
qed

lemma evolveApply_nth:
  "evolveApply is ts e = Some (ts', e') \<Longrightarrow> distinct is \<Longrightarrow> i \<in> set is \<Longrightarrow> i < length ts \<Longrightarrow>
   \<exists>config e0. EVOLUTION (level (ts ! i)) = Some config \<and>
               ts' ! i = fst (setTargetLevel (nxt config) (ts ! i) e0)"
proof (induction "is" arbitrary: ts e)
  case Nil
  then show ?case by simp
next
  case (Cons k "is")
  from Cons.prems(1) obtain config where c: "EVOLUTION (level (ts ! k)) = Some config"
    by (auto split: option.splits)
  let ?t' = "fst (setTargetLevel (nxt config) (ts ! k) e)"
  let ?e' = "snd (setTargetLevel (nxt config) (ts ! k) e)"
  from Cons.prems(1) c have step: "evolveApply is (ts[k := ?t']) ?e' = Some (ts', e')"
    by (simp add: split_beta)
  show ?case
  proof (cases "i = k")
    case True
    then have "i \<notin> set is" using Cons.prems(2) by simp
    from evolveApply_other [OF step this] have "ts' ! i = ?t'"
      using True Cons.prems(4) by simp
    with c True show ?thesis by blast
  next
    case False
    then have "i \<in> set is" "distinct is" "i < length (ts[k := ?t'])"
      using Cons.prems by simp_all
    from Cons.IH [OF step this(2) this(1) this(3)] False show ?thesis by simp
  qed
qed

lemma toEvolve_distinct: "distinct (toEvolve c g)"
  by (simp add: toEvolve_def)

lemma evolveAll_target:
  assumes "evolveAll c g e = Some (g', e')" and "i \<in> set (toEvolve c g)"
  shows "targetLevel (tiles g' ! i) = level (tiles g ! i) + 1 \<and>
         morphProgress (tiles g' ! i) = 0"
proof -
  from assms(1) obtain ts where
    ap: "evolveApply (toEvolve c g) (tiles g) e = Some (ts, e')" and g': "tiles g' = ts"
    by (auto simp: evolveAll_def)
  have i: "i < length (tiles g)" using assms(2) by (simp add: toEvolve_def)
  from evolveApply_nth [OF ap toEvolve_distinct assms(2) i] obtain config e0 where
    c: "EVOLUTION (level (tiles g ! i)) = Some config"
    and eq: "ts ! i = fst (setTargetLevel (nxt config) (tiles g ! i) e0)" by blast
  from EVOLUTION_Some [OF c] have n: "nxt config = level (tiles g ! i) + 1" by blast
  then have "nxt config \<noteq> level (tiles g ! i)" by simp
  from setTargetLevel_begins [OF this, of e0] show ?thesis by (simp add: g' eq n)
qed

lemma evolveAll_other:
  "evolveAll c g e = Some (g', e') \<Longrightarrow> j \<notin> set (toEvolve c g) \<Longrightarrow> tiles g' ! j = tiles g ! j"
  by (auto simp: evolveAll_def dest: evolveApply_other)

lemma decayPass_target:
  assumes "10 < nonEmptyCount g"
    and "i \<in> set (fst (decayCollect c g [0..<length (tiles g)] e))"
    and "LEVEL_HOUSE \<le> level (tiles g ! i)"
  shows "targetLevel (tiles (fst (decayPass c g e)) ! i) =
           (if level (tiles g ! i) = LEVEL_HOUSE then LEVEL_EMPTY else level (tiles g ! i) - 1) \<and>
         morphProgress (tiles (fst (decayPass c g e)) ! i) = 0"
proof -
  let ?is = "fst (decayCollect c g [0..<length (tiles g)] e)"
  let ?e' = "snd (decayCollect c g [0..<length (tiles g)] e)"
  have tiles': "tiles (fst (decayPass c g e)) = fst (decayApply ?is (tiles g) ?e')"
    using assms(1) by (simp add: decayPass_def split_beta)
  have i: "i < length (tiles g)" using decayCollect_set [of c g "[0..<length (tiles g)]" e] assms(2) by auto
  have dist: "distinct ?is" by (rule decayCollect_distinct) simp
  from decayApply_nth [OF dist assms(2) i, of ?e'] obtain e0 where
    eq: "fst (decayApply ?is (tiles g) ?e') ! i =
           fst (setTargetLevel (demoteTarget (level (tiles g ! i))) (tiles g ! i) e0)" ..
  have ne: "demoteTarget (level (tiles g ! i)) \<noteq> level (tiles g ! i)"
    using assms(3) by (simp add: demoteTarget_def consts_defs)
  have tgt: "demoteTarget (level (tiles g ! i)) =
      (if level (tiles g ! i) = LEVEL_HOUSE then LEVEL_EMPTY else level (tiles g ! i) - 1)"
    using assms(3) by (simp add: demoteTarget_def consts_defs)
  from setTargetLevel_begins [OF ne, of e0] show ?thesis unfolding tiles' eq tgt by simp
qed

lemma decayPass_other:
  "j \<notin> set (fst (decayCollect c g [0..<length (tiles g)] e)) \<Longrightarrow>
   tiles (fst (decayPass c g e)) ! j = tiles g ! j"
  by (simp add: decayPass_def split_beta decayApply_other)

text \<open>
  C10. Every grid the engine produces from a fresh grid by centre seeding, aggregation,
  evolution passes, decay passes and morph advances keeps each tile's level between
  Empty (0) and Factory (4) and its state among Empty, Candidate and Crystallized. An
  evolution pass never lacks a rule for a tile it promotes: the tile is not a Factory,
  and the target it receives is the next level, above House and at most Factory. A
  decay pass leaves every target level between Empty and Factory; when it runs, a tile
  it demotes receives the target Empty if it is a House and the level below its own
  otherwise, never a negative level.
\<close>

theorem engine_keeps_ranges:
  assumes "reach g"
  shows "list_all (\<lambda>t. LEVEL_EMPTY \<le> level t \<and> level t \<le> LEVEL_FACTORY \<and>
                       (state t = STATE_EMPTY \<or> state t = STATE_CANDIDATE \<or>
                        state t = STATE_CRYSTALLIZED)) (tiles g) \<and>
         evolveAll c g e \<noteq> None \<and>
         list_all (\<lambda>i. \<exists>config. EVOLUTION (level (tiles g ! i)) = Some config \<and>
                         nxt config = level (tiles g ! i) + 1 \<and>
                         LEVEL_HOUSE < nxt config \<and> nxt config \<le> LEVEL_FACTORY \<and>
                         level (tiles g ! i) \<noteq> LEVEL_FACTORY \<and>
                         targetLevel (tiles (fst (the (evolveAll c g e))) ! i) = nxt config)
           (toEvolve c g) \<and>
         list_all (\<lambda>t. LEVEL_EMPTY \<le> targetLevel t \<and> targetLevel t \<le> LEVEL_FACTORY)
           (tiles (fst (decayPass c g e))) \<and>
         (10 < nonEmptyCount g \<longrightarrow>
            list_all (\<lambda>i. (level (tiles g ! i) = LEVEL_HOUSE \<longrightarrow>
                             targetLevel (tiles (fst (decayPass c g e)) ! i) = LEVEL_EMPTY) \<and>
                          (LEVEL_HOUSE < level (tiles g ! i) \<longrightarrow>
                             targetLevel (tiles (fst (decayPass c g e)) ! i) =
                               level (tiles g ! i) - 1))
              (fst (decayCollect c g [0..<length (tiles g)] e)))"
proof (intro conjI impI)
  have ok: "grid_ok g" using assms by (rule reach_ok)
  then show "list_all (\<lambda>t. LEVEL_EMPTY \<le> level t \<and> level t \<le> LEVEL_FACTORY \<and>
                       (state t = STATE_EMPTY \<or> state t = STATE_CANDIDATE \<or>
                        state t = STATE_CRYSTALLIZED)) (tiles g)"
    by (simp add: grid_ok_def list_all_iff tile_ok_def)
  show total: "evolveAll c g e \<noteq> None" by (rule evolveAll_total)
  show "list_all (\<lambda>i. \<exists>config. EVOLUTION (level (tiles g ! i)) = Some config \<and>
                         nxt config = level (tiles g ! i) + 1 \<and>
                         LEVEL_HOUSE < nxt config \<and> nxt config \<le> LEVEL_FACTORY \<and>
                         level (tiles g ! i) \<noteq> LEVEL_FACTORY \<and>
                         targetLevel (tiles (fst (the (evolveAll c g e))) ! i) = nxt config)
           (toEvolve c g)"
    unfolding list_all_iff
  proof
    fix i assume i: "i \<in> set (toEvolve c g)"
    from toEvolve_rule [OF i] obtain config where
      c: "EVOLUTION (level (tiles g ! i)) = Some config"
      and r: "LEVEL_HOUSE < nxt config" "nxt config \<le> LEVEL_FACTORY"
             "level (tiles g ! i) \<noteq> LEVEL_FACTORY" by blast
    from EVOLUTION_Some [OF c] have n: "nxt config = level (tiles g ! i) + 1" by blast
    from total obtain g' e' where ev: "evolveAll c g e = Some (g', e')" by (cases "evolveAll c g e") auto
    from evolveAll_target [OF ev i] have "targetLevel (tiles (fst (the (evolveAll c g e))) ! i) = nxt config"
      by (simp add: ev n)
    with c r n show "\<exists>config. EVOLUTION (level (tiles g ! i)) = Some config \<and>
                         nxt config = level (tiles g ! i) + 1 \<and>
                         LEVEL_HOUSE < nxt config \<and> nxt config \<le> LEVEL_FACTORY \<and>
                         level (tiles g ! i) \<noteq> LEVEL_FACTORY \<and>
                         targetLevel (tiles (fst (the (evolveAll c g e))) ! i) = nxt config"
      by blast
  qed
  from decayPass_ok [OF ok, of c e]
  show "list_all (\<lambda>t. LEVEL_EMPTY \<le> targetLevel t \<and> targetLevel t \<le> LEVEL_FACTORY)
           (tiles (fst (decayPass c g e)))"
    by (simp add: grid_ok_def list_all_iff tile_ok_def)
next
  assume big: "10 < nonEmptyCount g"
  show "list_all (\<lambda>i. (level (tiles g ! i) = LEVEL_HOUSE \<longrightarrow>
                             targetLevel (tiles (fst (decayPass c g e)) ! i) = LEVEL_EMPTY) \<and>
                          (LEVEL_HOUSE < level (tiles g ! i) \<longrightarrow>
                             targetLevel (tiles (fst (decayPass c g e)) ! i) =
                               level (tiles g ! i) - 1))
              (fst (decayCollect c g [0..<length (tiles g)] e))"
    unfolding list_all_iff
  proof (intro ballI conjI impI)
    fix i assume i: "i \<in> set (fst (decayCollect c g [0..<length (tiles g)] e))"
    { assume h: "level (tiles g ! i) = LEVEL_HOUSE"
      then have "LEVEL_HOUSE \<le> level (tiles g ! i)" by simp
      from decayPass_target [OF big i this] h
      show "targetLevel (tiles (fst (decayPass c g e)) ! i) = LEVEL_EMPTY" by simp }
    { assume h: "LEVEL_HOUSE < level (tiles g ! i)"
      then have "LEVEL_HOUSE \<le> level (tiles g ! i)" by simp
      from decayPass_target [OF big i this] h
      show "targetLevel (tiles (fst (decayPass c g e)) ! i) = level (tiles g ! i) - 1" by simp }
  qed
qed

lemma grid_three_promotes: "4 \<in> set (toEvolve default_controls grid_three)"
proof -
  have "canPromote default_controls grid_three 4"
    by (simp add: canPromote_def grid_three_def default_controls_def grid_eval_defs)
  moreover have "1 \<le> morphProgress (tiles grid_three ! 4)" "4 < length (tiles grid_three)"
    by (simp_all add: grid_three_def mk_tile_def new_Tile_def)
  ultimately show ?thesis by (simp add: toEvolve_def)
qed

lemma grid_eleven_demotes:
  "0 \<in> set (fst (decayCollect default_controls grid_eleven [0..<length (tiles grid_eleven)] host0))"
proof -
  have below: "\<forall>n. sample_at host0 n < decayProb default_controls"
    by (simp add: host0_samples default_controls_def)
  have "state (tiles grid_eleven ! 0) = STATE_CRYSTALLIZED" "1 \<le> morphProgress (tiles grid_eleven ! 0)"
    "0 < length (tiles grid_eleven)"
    by (simp_all add: grid_eleven_def mk_tile_def new_Tile_def consts_defs)
  with grid_eleven_unserved show ?thesis by (simp add: decayCollect_all [OF below])
qed

theorem engine_keeps_ranges_witness:
  "reach grid_three \<and> 4 \<in> set (toEvolve default_controls grid_three) \<and>
   level (tiles grid_three ! 4) = LEVEL_HOUSE \<and>
   targetLevel (tiles (fst (the (evolveAll default_controls grid_three host0))) ! 4) = LEVEL_SHOP \<and>
   reach grid_eleven \<and> 10 < nonEmptyCount grid_eleven \<and>
   0 \<in> set (fst (decayCollect default_controls grid_eleven [0..<length (tiles grid_eleven)] host0)) \<and>
   level (tiles grid_eleven ! 0) = LEVEL_HOUSE \<and>
   targetLevel (tiles (fst (decayPass default_controls grid_eleven host0)) ! 0) = LEVEL_EMPTY"
proof -
  have l3: "level (tiles grid_three ! 4) = LEVEL_HOUSE"
    by (simp add: grid_three_def mk_tile_def new_Tile_def consts_defs)
  have l11: "level (tiles grid_eleven ! 0) = LEVEL_HOUSE"
    by (simp add: grid_eleven_def mk_tile_def new_Tile_def consts_defs)
  have big: "10 < nonEmptyCount grid_eleven" by (simp add: grid_eleven_count)
  from engine_keeps_ranges [OF reach_grid_three, of default_controls host0] grid_three_promotes
  have "\<exists>config. EVOLUTION (level (tiles grid_three ! 4)) = Some config \<and>
          nxt config = level (tiles grid_three ! 4) + 1 \<and>
          targetLevel (tiles (fst (the (evolveAll default_controls grid_three host0))) ! 4) = nxt config"
    unfolding list_all_iff by blast
  then have t3: "targetLevel (tiles (fst (the (evolveAll default_controls grid_three host0))) ! 4) = LEVEL_SHOP"
    using l3 by (auto simp: consts_defs)
  from engine_keeps_ranges [OF reach_grid_eleven, of default_controls host0] big grid_eleven_demotes l11
  have t11: "targetLevel (tiles (fst (decayPass default_controls grid_eleven host0)) ! 0) = LEVEL_EMPTY"
    unfolding list_all_iff by blast
  from reach_grid_three grid_three_promotes l3 t3 reach_grid_eleven big grid_eleven_demotes l11 t11
  show ?thesis by blast
qed

lemma draw_phases:
  "draw s =
     (if paused (controls s) then Some s
      else drawAfterSpawn s
             (if on_cadence (frameCount (p5 s)) (spawnRate (controls s)) \<and>
                 int (length (agents (grid s))) < maxAgents (controls s)
              then snd (spawnAgent (grid s) (p5 s))
              else (grid s, p5 s)))"
proof -
  show ?thesis by (simp add: draw_def drawAfterSpawn_def Let_def split_beta)
qed

lemma getRandomEdgeTile_edgeTiles: "getRandomEdgeTile g e = random_choice (edgeTiles g) e"
  by (simp add: getRandomEdgeTile_def edgeTiles_def)

lemma edgeLookups_coords: "edgeLookups g = map (\<lambda>(q, r). getTileIndex g q r) (edgeCoords g)"
  by (simp add: edgeLookups_def edgeCoords_def map_concat comp_def)

lemma edgeCoords_in_bounds:
  assumes "1 \<le> nRows g" "1 \<le> nCols g" "(q, r) \<in> set (edgeCoords g)"
  shows "in_bounds g q r"
  using assms by (auto simp: edgeCoords_def in_bounds_def)

lemma edgeTiles_coords:
  assumes "1 \<le> nRows g" "1 \<le> nCols g"
  shows "edgeTiles g = map (\<lambda>(q, r). nat (r * nCols g + q)) (edgeCoords g)"
proof -
  have all: "\<forall>p \<in> set (edgeCoords g). (case p of (q, r) \<Rightarrow> getTileIndex g q r) \<noteq> None"
    using edgeCoords_in_bounds [OF assms] by (auto simp: getTileIndex_iff)
  then have "filter (\<lambda>t. t \<noteq> None) (edgeLookups g) = edgeLookups g"
    by (simp add: edgeLookups_coords filter_map comp_def)
  then have "edgeTiles g = map (\<lambda>p. the (case p of (q, r) \<Rightarrow> getTileIndex g q r)) (edgeCoords g)"
    by (simp add: edgeTiles_def edgeLookups_coords comp_def)
  also have "\<dots> = map (\<lambda>(q, r). nat (r * nCols g + q)) (edgeCoords g)"
    using edgeCoords_in_bounds [OF assms] by (intro map_cong) (auto simp: getTileIndex_iff)
  finally show ?thesis .
qed

lemma distinct_top_bottom:
  "b \<noteq> 0 \<Longrightarrow> distinct (concat (map (\<lambda>q. [(int q, 0::int), (int q, b)]) [0..<N]))"
  by (induction N) auto

lemma distinct_left_right:
  "a \<noteq> 0 \<Longrightarrow> distinct (concat (map (\<lambda>r. [(0::int, int r), (a, int r)]) [m..<M]))"
  by (induction M) auto

lemma distinct_edgeCoords:
  assumes "2 \<le> nRows g" "2 \<le> nCols g"
  shows "distinct (edgeCoords g)"
proof -
  have b: "nRows g - 1 \<noteq> 0" and a: "nCols g - 1 \<noteq> 0" using assms by simp_all
  have disj: "set (concat (map (\<lambda>q. [(int q, 0), (int q, nRows g - 1)]) [0..<nat (nCols g)])) \<inter>
        set (concat (map (\<lambda>r. [(0, int r), (nCols g - 1, int r)]) [1..<nat (nRows g - 1)])) = {}"
    by auto
  show ?thesis
    unfolding edgeCoords_def distinct_append
    using distinct_top_bottom [OF b] distinct_left_right [OF a] disj by blast
qed

lemma index_inj:
  assumes "in_bounds g q r" "in_bounds g q' r'"
    and "nat (r * nCols g + q) = nat (r' * nCols g + q')"
  shows "q = q' \<and> r = r'"
proof -
  let ?n = "nCols g"
  have b: "0 \<le> q" "q < ?n" "0 \<le> r" "0 \<le> q'" "q' < ?n" "0 \<le> r'"
    using assms(1,2) by (simp_all add: in_bounds_def)
  then have "0 \<le> r * ?n + q" "0 \<le> r' * ?n + q'" by simp_all
  with assms(3) have eq: "r * ?n + q = r' * ?n + q'" by linarith
  have "(r * ?n + q) div ?n = r" "(r * ?n + q) mod ?n = q" using b by simp_all
  moreover have "(r' * ?n + q') div ?n = r'" "(r' * ?n + q') mod ?n = q'" using b by simp_all
  ultimately show ?thesis using eq by metis
qed

lemma distinct_edgeTiles:
  assumes "2 \<le> nRows g" "2 \<le> nCols g"
  shows "distinct (edgeTiles g)"
proof -
  have one: "1 \<le> nRows g" "1 \<le> nCols g" using assms by simp_all
  have "inj_on (\<lambda>(q, r). nat (r * nCols g + q)) (set (edgeCoords g))"
  proof (rule inj_onI)
    fix x y assume x: "x \<in> set (edgeCoords g)" and y: "y \<in> set (edgeCoords g)"
      and eq: "(case x of (q, r) \<Rightarrow> nat (r * nCols g + q)) = (case y of (q, r) \<Rightarrow> nat (r * nCols g + q))"
    obtain q r q' r' where xy: "x = (q, r)" "y = (q', r')" by (cases x, cases y)
    from x y have "in_bounds g q r" "in_bounds g q' r'"
      unfolding xy by (auto intro: edgeCoords_in_bounds [OF one])
    from index_inj [OF this] eq show "x = y" by (simp add: xy)
  qed
  with distinct_edgeCoords [OF assms] show ?thesis
    by (simp add: edgeTiles_coords [OF one] distinct_map)
qed

lemma edgeTiles_subset:
  assumes "wf_grid g" and "k \<in> set (edgeTiles g)"
  shows "k < length (tiles g) \<and> on_edge g (tiles g ! k)"
proof -
  from assms(2) have "Some k \<in> set (edgeLookups g)" unfolding edgeTiles_def by (rule edge_tiles_mem)
  from edgeLookups_mem [OF this] obtain q r where
    idx: "getTileIndex g q r = Some k"
    and edge: "r = 0 \<or> r = nRows g - 1 \<or> q = 0 \<or> q = nCols g - 1" by blast
  from idx have ib: "in_bounds g q r" and k: "k = nat (r * nCols g + q)"
    by (auto simp: getTileIndex_iff split: if_splits)
  from wf_grid_nth [OF assms(1), of q r] ib
  have "k < length (tiles g)" "tile_q (tiles g ! k) = q" "tile_r (tiles g ! k) = r"
    unfolding k by (simp_all add: in_bounds_def)
  with edge show ?thesis by (auto simp: on_edge_def)
qed

lemma coords_of_index:
  assumes wf: "wf_grid g" and k: "k < length (tiles g)"
  shows "in_bounds g (int k mod nCols g) (int k div nCols g) \<and>
         nat (int k div nCols g * nCols g + int k mod nCols g) = k"
proof -
  let ?n = "nCols g" and ?m = "nRows g"
  have len: "length (tiles g) = nat ?m * nat ?n" using wf by (rule wf_grid_length)
  have pn: "0 < ?n"
  proof (rule ccontr)
    assume "\<not> 0 < ?n" then have "nat ?n = 0" by simp
    with k len show False by simp
  qed
  have pm: "0 < ?m"
  proof (rule ccontr)
    assume "\<not> 0 < ?m" then have "nat ?m = 0" by simp
    with k len show False by simp
  qed
  define q where "q = int k mod ?n"
  define r where "r = int k div ?n"
  have q: "0 \<le> q" "q < ?n" using pn by (simp_all add: q_def)
  have r0: "0 \<le> r" using pn by (simp add: r_def pos_imp_zdiv_nonneg_iff)
  have dm: "int k = r * ?n + q" by (simp add: q_def r_def)
  have "k < nat ?m * nat ?n" using k len by simp
  then have "int k < int (nat ?m * nat ?n)" by (simp only: of_nat_less_iff)
  also have "\<dots> = ?m * ?n" using pn pm by simp
  finally have lt: "int k < ?m * ?n" .
  have r1: "r < ?m"
  proof (rule ccontr)
    assume "\<not> r < ?m"
    then have "?m \<le> r" by simp
    then have "?m * ?n \<le> r * ?n" using pn by (intro mult_right_mono) simp_all
    with dm q lt show False by linarith
  qed
  have "nat (r * ?n + q) = k" using dm by simp
  with q r0 r1 show ?thesis by (simp add: in_bounds_def q_def r_def)
qed

lemma edgeCoords_top_bottom:
  assumes "0 \<le> q" "q < nCols g" "r = 0 \<or> r = nRows g - 1"
  shows "(q, r) \<in> set (edgeCoords g)"
proof -
  have "nat q \<in> set [0..<nat (nCols g)]" using assms by simp
  moreover have "(q, r) \<in> set [(int (nat q), 0), (int (nat q), nRows g - 1)]" using assms by auto
  ultimately have "(q, r) \<in> set (concat (map (\<lambda>q. [(int q, 0), (int q, nRows g - 1)]) [0..<nat (nCols g)]))"
    unfolding set_concat set_map by blast
  then show ?thesis by (simp add: edgeCoords_def)
qed

lemma edgeCoords_left_right:
  assumes "1 \<le> r" "r < nRows g - 1" "q = 0 \<or> q = nCols g - 1"
  shows "(q, r) \<in> set (edgeCoords g)"
proof -
  have "nat r \<in> set [1..<nat (nRows g - 1)]" using assms by simp
  moreover have "(q, r) \<in> set [(0, int (nat r)), (nCols g - 1, int (nat r))]" using assms by auto
  ultimately have "(q, r) \<in> set (concat (map (\<lambda>r. [(0, int r), (nCols g - 1, int r)]) [1..<nat (nRows g - 1)]))"
    unfolding set_concat set_map by blast
  then show ?thesis by (simp add: edgeCoords_def)
qed

lemma edgeTiles_superset:
  assumes wf: "wf_grid g" and k: "k < length (tiles g)" and oe: "on_edge g (tiles g ! k)"
  shows "k \<in> set (edgeTiles g)"
proof -
  let ?n = "nCols g" and ?m = "nRows g"
  define q where "q = int k mod ?n"
  define r where "r = int k div ?n"
  from coords_of_index [OF wf k] have ib: "in_bounds g q r" and kk: "nat (r * ?n + q) = k"
    by (simp_all add: q_def r_def)
  then have b: "0 \<le> q" "q < ?n" "0 \<le> r" "r < ?m" by (simp_all add: in_bounds_def)
  from wf_grid_nth [OF wf b] have co: "tile_q (tiles g ! k) = q" "tile_r (tiles g ! k) = r"
    by (simp_all add: kk)
  have idx: "getTileIndex g q r = Some k" using ib kk by (simp add: getTileIndex_iff)
  have mem: "(q, r) \<in> set (edgeCoords g)"
  proof (cases "r = 0 \<or> r = ?m - 1")
    case True
    with b show ?thesis by (intro edgeCoords_top_bottom)
  next
    case False
    then have rr: "1 \<le> r" "r < ?m - 1" using b by simp_all
    from False oe co have "q = 0 \<or> q = ?n - 1" by (simp add: on_edge_def)
    with rr show ?thesis by (intro edgeCoords_left_right)
  qed
  have "(case (q, r) of (q, r) \<Rightarrow> getTileIndex g q r) \<in> set (edgeLookups g)"
    unfolding edgeLookups_coords set_map using mem by (rule imageI)
  then have "Some k \<in> set (edgeLookups g)" using idx by simp
  then have "Some k \<in> set (filter (\<lambda>t. t \<noteq> None) (edgeLookups g))" by simp
  then have "the (Some k) \<in> set (edgeTiles g)" unfolding edgeTiles_def set_map by (rule imageI)
  then show ?thesis by simp
qed

lemma edgeTiles_set:
  "wf_grid g \<Longrightarrow> set (edgeTiles g) = {k. k < length (tiles g) \<and> on_edge g (tiles g ! k)}"
  using edgeTiles_subset edgeTiles_superset by blast

lemma pick_index:
  assumes "xs \<noteq> []"
  shows "nat \<lfloor>fst (random e) * of_nat (length xs)\<rfloor> < length xs"
proof -
  from assms have pos: "0 < length xs" by simp
  let ?u = "fst (random e)"
  have u: "0 \<le> ?u" "?u < 1" using random_range [of e] by simp_all
  have "?u * of_nat (length xs) < of_nat (length xs)" using u pos by simp
  then have "\<lfloor>?u * of_nat (length xs)\<rfloor> < int (length xs)" by (simp add: floor_less_iff)
  moreover have "0 \<le> \<lfloor>?u * of_nat (length xs)\<rfloor>" using u by simp
  ultimately show ?thesis by linarith
qed

lemma random_choice_pick:
  "xs \<noteq> [] \<Longrightarrow>
   fst (random_choice xs e) = Some (xs ! nat \<lfloor>fst (random e) * of_nat (length xs)\<rfloor>)"
  using pick_index [of xs e] by (simp add: random_choice_def split_beta Let_def)

lemma random_choice_Nil: "fst (random_choice [] e) = None"
  by (simp add: random_choice_def split_beta)

lemma pick_interval:
  fixes u :: rat
  assumes "0 \<le> u" "0 < n"
  shows "nat \<lfloor>u * of_nat n\<rfloor> = k \<longleftrightarrow> of_nat k / of_nat n \<le> u \<and> u < (of_nat k + 1) / of_nat n"
proof -
  have n: "(0::rat) < of_nat n" using assms(2) by simp
  have nn: "0 \<le> \<lfloor>u * of_nat n\<rfloor>" using assms by simp
  have "nat \<lfloor>u * of_nat n\<rfloor> = k \<longleftrightarrow> \<lfloor>u * of_nat n\<rfloor> = int k" using nn by linarith
  also have "\<dots> \<longleftrightarrow> of_int (int k) \<le> u * of_nat n \<and> u * of_nat n < of_int (int k) + 1"
    by (rule floor_eq_iff)
  also have "\<dots> \<longleftrightarrow> of_nat k / of_nat n \<le> u \<and> u < (of_nat k + 1) / of_nat n"
    using n by (simp add: pos_divide_le_eq pos_less_divide_eq)
  finally show ?thesis .
qed

text \<open>
  C4, as the code has it. Unless the sketch is paused, \<^verbatim>\<open>draw()\<close> makes one spawn attempt
  exactly on a frame whose count the spawn rate divides and on which fewer agents than
  the maximum are active. The attempt draws one sample \<open>u\<close> in \<open>[0, 1)\<close> and picks entry
  \<open>k\<close> of the list of the \<open>n\<close> edge tiles when \<open>k / n \<le> u < (k + 1) / n\<close>, so every
  entry has an interval of the same width; the list holds exactly the tiles on the
  boundary of the grid, Crystallized or not, each of them once on a grid with at least
  two rows and two columns. If the picked tile is not Crystallized, one new live agent on
  it is appended to the agents; if it is Crystallized, no agent is created.
\<close>

theorem spawn_tick_spec:
  fixes s :: Sketch
  defines "g \<equiv> grid s" and "e \<equiv> p5 s" and "c \<equiv> controls s"
  defines "u \<equiv> fst (random (p5 s))" and "n \<equiv> length (edgeTiles (grid s))"
  assumes wf: "wf_grid (grid s)"
  shows "(paused c \<longrightarrow> draw s = Some s) \<and>
         (\<not> paused c \<and> on_cadence (frameCount e) (spawnRate c) \<and>
          int (length (agents g)) < maxAgents c \<longrightarrow>
            draw s = drawAfterSpawn s (snd (spawnAgent g e))) \<and>
         (\<not> paused c \<and>
          \<not> (on_cadence (frameCount e) (spawnRate c) \<and> int (length (agents g)) < maxAgents c) \<longrightarrow>
            draw s = drawAfterSpawn s (g, e)) \<and>
         set (edgeTiles g) = {k. k < length (tiles g) \<and> on_edge g (tiles g ! k)} \<and>
         (2 \<le> nRows g \<and> 2 \<le> nCols g \<longrightarrow> distinct (edgeTiles g)) \<and>
         0 \<le> u \<and> u < 1 \<and>
         (edgeTiles g \<noteq> [] \<longrightarrow>
            (\<exists>k < n. of_nat k / of_nat n \<le> u \<and> u < (of_nat k + 1) / of_nat n)) \<and>
         (\<forall>k < n. of_nat k / of_nat n \<le> u \<and> u < (of_nat k + 1) / of_nat n \<longrightarrow>
            fst (getRandomEdgeTile g e) = Some (edgeTiles g ! k) \<and>
            (if state (tiles g ! (edgeTiles g ! k)) \<noteq> STATE_CRYSTALLIZED
             then spawnAgent g e =
                    (Some \<lparr>tile = edgeTiles g ! k, alive = True\<rparr>,
                     g\<lparr>agents := agents g @ [\<lparr>tile = edgeTiles g ! k, alive = True\<rparr>]\<rparr>,
                     snd (random e))
             else spawnAgent g e = (None, g, snd (random e)))) \<and>
         (edgeTiles g = [] \<longrightarrow> spawnAgent g e = (None, g, snd (random e)))"
proof -
  have ur: "0 \<le> u" "u < 1" using random_range [of e] by (simp_all add: u_def e_def)
  have snd_pick: "snd (getRandomEdgeTile g e) = snd (random e)"
    by (simp add: getRandomEdgeTile_def)
  have c1: "paused c \<longrightarrow> draw s = Some s"
    by (simp add: draw_phases c_def)
  have c2: "\<not> paused c \<and> on_cadence (frameCount e) (spawnRate c) \<and>
          int (length (agents g)) < maxAgents c \<longrightarrow>
            draw s = drawAfterSpawn s (snd (spawnAgent g e))"
    by (simp add: draw_phases c_def e_def g_def)
  have c3: "\<not> paused c \<and>
          \<not> (on_cadence (frameCount e) (spawnRate c) \<and> int (length (agents g)) < maxAgents c) \<longrightarrow>
            draw s = drawAfterSpawn s (g, e)"
    by (auto simp: draw_phases c_def e_def g_def)
  have c4: "set (edgeTiles g) = {k. k < length (tiles g) \<and> on_edge g (tiles g ! k)}"
    using wf unfolding g_def by (rule edgeTiles_set)
  have c5: "2 \<le> nRows g \<and> 2 \<le> nCols g \<longrightarrow> distinct (edgeTiles g)"
    by (simp add: distinct_edgeTiles)
  have c6: "edgeTiles g \<noteq> [] \<longrightarrow>
            (\<exists>k < n. of_nat k / of_nat n \<le> u \<and> u < (of_nat k + 1) / of_nat n)"
  proof
    assume ne: "edgeTiles g \<noteq> []"
    then have pos: "0 < n" by (simp add: n_def g_def)
    let ?k = "nat \<lfloor>u * of_nat n\<rfloor>"
    have "?k < n" using pick_index [OF ne, of e] by (simp add: u_def n_def e_def g_def)
    moreover have "of_nat ?k / of_nat n \<le> u \<and> u < (of_nat ?k + 1) / of_nat n"
      using pick_interval [OF ur(1) pos, of ?k] by simp
    ultimately show "\<exists>k < n. of_nat k / of_nat n \<le> u \<and> u < (of_nat k + 1) / of_nat n" by blast
  qed
  have c7: "\<forall>k < n. of_nat k / of_nat n \<le> u \<and> u < (of_nat k + 1) / of_nat n \<longrightarrow>
            fst (getRandomEdgeTile g e) = Some (edgeTiles g ! k) \<and>
            (if state (tiles g ! (edgeTiles g ! k)) \<noteq> STATE_CRYSTALLIZED
             then spawnAgent g e =
                    (Some \<lparr>tile = edgeTiles g ! k, alive = True\<rparr>,
                     g\<lparr>agents := agents g @ [\<lparr>tile = edgeTiles g ! k, alive = True\<rparr>]\<rparr>,
                     snd (random e))
             else spawnAgent g e = (None, g, snd (random e)))"
  proof (intro allI impI)
    fix k assume k: "k < n"
      and iv: "of_nat k / of_nat n \<le> u \<and> u < (of_nat k + 1) / of_nat n"
    from k have pos: "0 < n" by simp
    then have ne: "edgeTiles g \<noteq> []" by (auto simp: n_def g_def)
    from iv pick_interval [OF ur(1) pos, of k] have idx: "nat \<lfloor>u * of_nat n\<rfloor> = k" by simp
    from random_choice_pick [OF ne, of e]
    have pick: "fst (getRandomEdgeTile g e) = Some (edgeTiles g ! k)"
      using idx by (simp add: getRandomEdgeTile_edgeTiles u_def n_def e_def g_def)
    with snd_pick have full: "getRandomEdgeTile g e = (Some (edgeTiles g ! k), snd (random e))"
      by (metis prod.collapse)
    have "if state (tiles g ! (edgeTiles g ! k)) \<noteq> STATE_CRYSTALLIZED
             then spawnAgent g e =
                    (Some \<lparr>tile = edgeTiles g ! k, alive = True\<rparr>,
                     g\<lparr>agents := agents g @ [\<lparr>tile = edgeTiles g ! k, alive = True\<rparr>]\<rparr>,
                     snd (random e))
             else spawnAgent g e = (None, g, snd (random e))"
      by (simp add: spawnAgent_def full Let_def)
    with pick show "fst (getRandomEdgeTile g e) = Some (edgeTiles g ! k) \<and>
            (if state (tiles g ! (edgeTiles g ! k)) \<noteq> STATE_CRYSTALLIZED
             then spawnAgent g e =
                    (Some \<lparr>tile = edgeTiles g ! k, alive = True\<rparr>,
                     g\<lparr>agents := agents g @ [\<lparr>tile = edgeTiles g ! k, alive = True\<rparr>]\<rparr>,
                     snd (random e))
             else spawnAgent g e = (None, g, snd (random e)))" by blast
  qed
  have c8: "edgeTiles g = [] \<longrightarrow> spawnAgent g e = (None, g, snd (random e))"
  proof
    assume "edgeTiles g = []"
    then have "fst (getRandomEdgeTile g e) = None"
      by (simp add: getRandomEdgeTile_edgeTiles random_choice_Nil)
    with snd_pick have "getRandomEdgeTile g e = (None, snd (random e))" by (metis prod.collapse)
    then show "spawnAgent g e = (None, g, snd (random e))" by (simp add: spawnAgent_def)
  qed
  from c1 c2 c3 c4 c5 ur c6 c7 c8 show ?thesis by blast
qed

lemma grid_three_edgeTiles: "edgeTiles grid_three = [0, 6, 1, 7, 2, 8, 3, 5]"
  unfolding edgeTiles_def by (rule grid_three_edges)

theorem spawn_tick_spec_witness:
  "wf_grid (grid sketch_spawn) \<and> \<not> paused (controls sketch_spawn) \<and>
   on_cadence (frameCount (p5 sketch_spawn)) (spawnRate (controls sketch_spawn)) \<and>
   int (length (agents (grid sketch_spawn))) < maxAgents (controls sketch_spawn) \<and>
   draw sketch_spawn =
     drawAfterSpawn sketch_spawn (snd (spawnAgent (grid sketch_spawn) (p5 sketch_spawn))) \<and>
   2 \<le> nRows (grid sketch_spawn) \<and> 2 \<le> nCols (grid sketch_spawn) \<and>
   distinct (edgeTiles (grid sketch_spawn)) \<and>
   fst (random (p5 sketch_spawn)) = 0 \<and>
   fst (getRandomEdgeTile (grid sketch_spawn) (p5 sketch_spawn)) = Some 0 \<and>
   state (tiles (grid sketch_spawn) ! 0) \<noteq> STATE_CRYSTALLIZED \<and>
   spawnAgent (grid sketch_spawn) (p5 sketch_spawn) =
     (Some \<lparr>tile = 0, alive = True\<rparr>,
      (grid sketch_spawn)\<lparr>agents := agents (grid sketch_spawn) @ [\<lparr>tile = 0, alive = True\<rparr>]\<rparr>,
      snd (random (p5 sketch_spawn)))"
proof -
  have g: "grid sketch_spawn = grid_three" by (simp add: sketch_spawn_def)
  have wf: "wf_grid (grid sketch_spawn)" unfolding g by (rule grid_three_wf)
  have gate: "\<not> paused (controls sketch_spawn)"
    "on_cadence (frameCount (p5 sketch_spawn)) (spawnRate (controls sketch_spawn))"
    "int (length (agents (grid sketch_spawn))) < maxAgents (controls sketch_spawn)"
    by (simp_all add: sketch_spawn_def default_controls_def on_cadence_def js_rem_def grid_three_def)
  have dims: "2 \<le> nRows (grid sketch_spawn)" "2 \<le> nCols (grid sketch_spawn)"
    by (simp_all add: g grid_three_def)
  have u: "fst (random (p5 sketch_spawn)) = 0"
    by (simp add: sketch_spawn_def random_def host0_def)
  have n: "length (edgeTiles (grid sketch_spawn)) = 8" "edgeTiles (grid sketch_spawn) ! 0 = 0"
    by (simp_all add: g grid_three_edgeTiles)
  have st: "state (tiles (grid sketch_spawn) ! 0) \<noteq> STATE_CRYSTALLIZED"
    by (simp add: g grid_three_def mk_tile_def new_Tile_def consts_defs)
  note spec = spawn_tick_spec [OF wf]
  from spec gate have d: "draw sketch_spawn =
     drawAfterSpawn sketch_spawn (snd (spawnAgent (grid sketch_spawn) (p5 sketch_spawn)))"
    by blast
  from spec dims have di: "distinct (edgeTiles (grid sketch_spawn))" by blast
  from spec have "\<forall>k < length (edgeTiles (grid sketch_spawn)).
      of_nat k / of_nat (length (edgeTiles (grid sketch_spawn))) \<le> fst (random (p5 sketch_spawn)) \<and>
      fst (random (p5 sketch_spawn)) < (of_nat k + 1) / of_nat (length (edgeTiles (grid sketch_spawn))) \<longrightarrow>
        fst (getRandomEdgeTile (grid sketch_spawn) (p5 sketch_spawn)) =
          Some (edgeTiles (grid sketch_spawn) ! k) \<and>
        (if state (tiles (grid sketch_spawn) ! (edgeTiles (grid sketch_spawn) ! k)) \<noteq> STATE_CRYSTALLIZED
         then spawnAgent (grid sketch_spawn) (p5 sketch_spawn) =
                (Some \<lparr>tile = edgeTiles (grid sketch_spawn) ! k, alive = True\<rparr>,
                 (grid sketch_spawn)\<lparr>agents := agents (grid sketch_spawn) @
                    [\<lparr>tile = edgeTiles (grid sketch_spawn) ! k, alive = True\<rparr>]\<rparr>,
                 snd (random (p5 sketch_spawn)))
         else spawnAgent (grid sketch_spawn) (p5 sketch_spawn) =
                (None, grid sketch_spawn, snd (random (p5 sketch_spawn))))"
    by blast
  from this [rule_format, of 0] u n st
  have pk: "fst (getRandomEdgeTile (grid sketch_spawn) (p5 sketch_spawn)) = Some 0"
    and sp: "spawnAgent (grid sketch_spawn) (p5 sketch_spawn) =
     (Some \<lparr>tile = 0, alive = True\<rparr>,
      (grid sketch_spawn)\<lparr>agents := agents (grid sketch_spawn) @ [\<lparr>tile = 0, alive = True\<rparr>]\<rparr>,
      snd (random (p5 sketch_spawn)))"
    by simp_all
  from wf gate d dims di u pk st sp show ?thesis by blast
qed

lemma edgeTiles_3_1: "edgeTiles (new_Grid 3 1) = [0, 2, 1, 1]"
  by (simp add: edgeTiles_def edgeLookups_def new_Grid_def getTileIndex_def upt_conv_Cons)

text \<open>
  C4, as stated, fails: on the 3 by 3 grid whose tiles (1,0), (0,1) and (1,1) are
  Crystallized, with no agent (the maximum is 50) and frame 2 a spawn tick, the sample
  1/4 picks the edge tile (1,0), which is Crystallized, and no agent is created: the
  frame ends with no agent. And on a grid of three rows and one column the list of edge
  tiles holds the middle tile twice, so that the draw is not uniform there.
\<close>

theorem spawn_tick_spec_counterexample:
  "int (length (agents grid_three)) < maxAgents default_controls \<and>
   on_cadence 2 (spawnRate default_controls) \<and>
   fst (getRandomEdgeTile grid_three (host_quarter\<lparr>frameCount := 2\<rparr>)) = Some 1 \<and>
   state (tiles grid_three ! 1) = STATE_CRYSTALLIZED \<and>
   fst (spawnAgent grid_three (host_quarter\<lparr>frameCount := 2\<rparr>)) = None \<and>
   agents (fst (snd (spawnAgent grid_three (host_quarter\<lparr>frameCount := 2\<rparr>)))) = [] \<and>
   map_option (\<lambda>s. agents (grid s)) (frame sketch_three) = Some [] \<and>
   edgeTiles (new_Grid 3 1) = [0, 2, 1, 1]"
  by (simp add: spawn_three frame_three grid_three_pick_quarter edgeTiles_3_1)
    (simp add: grid_three_def sketch_three_def default_controls_def on_cadence_def js_rem_def
      mk_tile_def new_Tile_def consts_defs)

end
